theory Spec2Isabelle
  imports Complex_Main "HOL-Library.Multiset" "HOL-Library.Sublist"
    "HOL-Library.Char_ord" "HOL-Library.List_Lexorder"
begin

section \<open>Conventions of the embedding\<close>

text \<open>
  The two analysis engines of the repository (\<^verbatim>\<open>analysis/gap_identification.py\<close> and
  \<^verbatim>\<open>analysis/pattern_recognition.py\<close>) are embedded as HOL functions.

  \<^item> Python \<^verbatim>\<open>float\<close> values are exact rationals (\<^typ>\<open>rat\<close>): the thresholds and
    formulas of the source are kept, their binary rounding is not.
  \<^item> Python \<^verbatim>\<open>str\<close> is \<^typ>\<open>string\<close>, read as ASCII text.
  \<^item> A citation is a dictionary; each field the engines read is an \<^typ>\<open>'a option\<close>,
    \<open>None\<close> when the key is absent, and otherwise a value of the type the data model gives
    it. A column of the pandas frame built from the citations exists when some citation
    has the key; a row without the key holds NaN in that column.
  \<^item> An exception is a value \<open>Inl e\<close> of a sum type.
\<close>

section \<open>Strings\<close>

text \<open>An upper-case ASCII letter has bit 5 clear; setting it adds 32, its lower-case form.\<close>
definition lower_char :: "char \<Rightarrow> char" where
  "lower_char c =
     (if CHR ''A'' \<le> c \<and> c \<le> CHR ''Z''
      then (case c of Char b0 b1 b2 b3 b4 b5 b6 b7 \<Rightarrow> Char b0 b1 b2 b3 b4 True b6 b7)
      else c)"

text \<open>\<^verbatim>\<open>str.lower()\<close>\<close>
definition py_lower :: "string \<Rightarrow> string" where
  "py_lower s = map lower_char s"

text \<open>\<^verbatim>\<open>sub in s\<close> on strings\<close>
fun is_substr :: "string \<Rightarrow> string \<Rightarrow> bool" where
  "is_substr sub [] = (sub = [])"
| "is_substr sub (c # cs) = (prefix sub (c # cs) \<or> is_substr sub cs)"

text \<open>\<^verbatim>\<open>any(word in s for word in words)\<close>\<close>
definition any_in :: "string list \<Rightarrow> string \<Rightarrow> bool" where
  "any_in words s = list_ex (\<lambda>word. is_substr word s) words"

text \<open>\<^verbatim>\<open>str.split()\<close> without arguments: the maximal runs of non-whitespace characters.\<close>
definition is_space :: "char \<Rightarrow> bool" where
  "is_space c \<longleftrightarrow> c \<in> set [CHR 0x09, CHR 0x0A, CHR 0x0B, CHR 0x0C, CHR 0x0D,
     CHR 0x1C, CHR 0x1D, CHR 0x1E, CHR 0x1F, CHR 0x20]"

fun split_ws :: "string \<Rightarrow> string \<Rightarrow> string list" where
  "split_ws w [] = (if w = [] then [] else [w])"
| "split_ws w (c # cs) =
     (if is_space c then (if w = [] then split_ws [] cs else w # split_ws [] cs)
      else split_ws (w @ [c]) cs)"

definition py_split :: "string \<Rightarrow> string list" where
  "py_split s = split_ws [] s"

text \<open>\<^verbatim>\<open>' '.join(words)\<close>\<close>
fun join_space :: "string list \<Rightarrow> string" where
  "join_space [] = []"
| "join_space [w] = w"
| "join_space (w # ws) = w @ '' '' @ join_space ws"

text \<open>
  The regular expressions of \<^verbatim>\<open>_find_question_variation_gaps\<close> all have the shape
  \<^verbatim>\<open>\bw1\s+w2...\b\<close>, alternatives joined by \<^verbatim>\<open>|\<close>. A phrase is the list of its words;
  \<open>match_phrase\<close> matches it at the head of a string and returns the rest;
  \<open>search_from\<close> is \<^verbatim>\<open>re.search\<close>, carrying whether the previous character is a word
  character (for the leading \<^verbatim>\<open>\b\<close>).
\<close>
definition is_word_char :: "char \<Rightarrow> bool" where
  "is_word_char c \<longleftrightarrow> (CHR ''a'' \<le> c \<and> c \<le> CHR ''z'') \<or> (CHR ''A'' \<le> c \<and> c \<le> CHR ''Z'')
     \<or> (CHR ''0'' \<le> c \<and> c \<le> CHR ''9'') \<or> c = CHR ''_''"

fun match_phrase :: "string list \<Rightarrow> string \<Rightarrow> string option" where
  "match_phrase [] s = Some s"
| "match_phrase [w] s = (if prefix w s then Some (drop (length w) s) else None)"
| "match_phrase (w # ws) s =
     (if prefix w s
      then (case drop (length w) s of
              [] \<Rightarrow> None
            | c # r \<Rightarrow> if is_space c then match_phrase ws (dropWhile is_space r) else None)
      else None)"

fun search_from :: "string list \<Rightarrow> bool \<Rightarrow> string \<Rightarrow> bool" where
  "search_from ph prev [] = False"
| "search_from ph prev (c # cs) =
     ((\<not> prev \<and> (case match_phrase ph (c # cs) of
                    None \<Rightarrow> False
                  | Some [] \<Rightarrow> True
                  | Some (d # r) \<Rightarrow> \<not> is_word_char d))
      \<or> search_from ph (is_word_char c) cs)"

definition re_search :: "string list list \<Rightarrow> string \<Rightarrow> bool" where
  "re_search alternatives s = list_ex (\<lambda>ph. search_from ph False s) alternatives"

section \<open>Gap identification engine: data\<close>

text \<open>
  \<^verbatim>\<open>ContentGap\<close>. The fields \<^verbatim>\<open>gap_id\<close> (built from Python's per-process salted
  \<^verbatim>\<open>hash\<close>), \<^verbatim>\<open>suggested_content_type\<close>, \<^verbatim>\<open>suggested_topics\<close>,
  \<^verbatim>\<open>search_volume_estimate\<close>, \<^verbatim>\<open>reasoning\<close>, \<^verbatim>\<open>related_queries\<close> and
  \<^verbatim>\<open>content_angle_suggestions\<close> are written once when a gap is built and not read again
  by \<^verbatim>\<open>identify_content_gaps\<close>; they are not carried, but the exception that computing
  \<^verbatim>\<open>related_queries\<close> can raise is. An absent source domain (NaN) is \<open>None\<close> in
  \<open>competing_domains\<close>.
\<close>
record content_gap =
  query_text :: string
  gap_type :: string
  opportunity_score :: rat
  competing_domains :: "string option list"
  difficulty_score :: rat
  priority :: string
  estimated_effort :: string
  potential_impact :: string

section \<open>Gap identification engine: the scoring pass\<close>

definition high_value_words :: "string list" where
  "high_value_words = [''how to'', ''best'', ''guide'', ''tutorial'']"

definition commercial_words :: "string list" where
  "commercial_words = [''buy'', ''price'', ''cost'', ''review'', ''comparison'']"

text \<open>The three steps of the loop body of \<^verbatim>\<open>_score_and_prioritize_gaps\<close>.\<close>
definition boost_high_value :: "content_gap \<Rightarrow> content_gap" where
  "boost_high_value g =
     (if any_in high_value_words (py_lower (query_text g))
      then g\<lparr>opportunity_score := min 1 (opportunity_score g + 1 / 10)\<rparr>
      else g)"

definition boost_commercial :: "content_gap \<Rightarrow> content_gap" where
  "boost_commercial g =
     (if any_in commercial_words (py_lower (query_text g))
      then g\<lparr>opportunity_score := min 1 (opportunity_score g + 15 / 100),
             potential_impact := ''high''\<rparr>
      else g)"

definition priority_of_score :: "rat \<Rightarrow> string" where
  "priority_of_score s =
     (if s \<ge> 8 / 10 then ''high'' else if s \<ge> 5 / 10 then ''medium'' else ''low'')"

definition adjust_priority :: "content_gap \<Rightarrow> content_gap" where
  "adjust_priority g = g\<lparr>priority := priority_of_score (opportunity_score g)\<rparr>"

definition score_gap :: "content_gap \<Rightarrow> content_gap" where
  "score_gap g = adjust_priority (boost_commercial (boost_high_value g))"

text \<open>
  \<^verbatim>\<open>gaps.sort(key=lambda x: x.opportunity_score, reverse=True)\<close>: Python's sort is stable
  also with \<^verbatim>\<open>reverse=True\<close>, so it is the stable insertion sort on the negated key.
\<close>
definition sort_by_opportunity :: "content_gap list \<Rightarrow> content_gap list" where
  "sort_by_opportunity gaps = sort_key (\<lambda>g. - opportunity_score g) gaps"

definition score_and_prioritize_gaps :: "content_gap list \<Rightarrow> content_gap list" where
  "score_and_prioritize_gaps gaps =
     (if gaps = [] then gaps else sort_by_opportunity (map score_gap gaps))"

section \<open>Citations and the data frame\<close>

text \<open>A scalar metadata value is kept as the text \<^verbatim>\<open>f"{value}"\<close> renders.\<close>
datatype meta_value = Scalar string | Nested

text \<open>
  The keys of a citation dictionary the engines read. \<open>created_at\<close> is a point in time in
  seconds since 1970-01-01 00:00; \<^verbatim>\<open>url\<close>, \<^verbatim>\<open>title\<close> and \<^verbatim>\<open>snippet\<close> are never read by
  the two engines.
\<close>
record citation =
  engine :: "string option"
  query :: "string option"
  position :: "int option"
  citation_type :: "string option"
  source_domain :: "string option"
  prominence_score :: "rat option"
  created_at :: "int option"
  metadata :: "(string \<times> meta_value) list option"

text \<open>\<^verbatim>\<open>'name' in df.columns\<close>, for \<^verbatim>\<open>df = pd.DataFrame(citations)\<close>\<close>
definition has_col :: "(citation \<Rightarrow> 'a option) \<Rightarrow> citation list \<Rightarrow> bool" where
  "has_col f df = list_ex (\<lambda>c. f c \<noteq> None) df"

text \<open>The values of a column that are not NaN.\<close>
definition col_values :: "(citation \<Rightarrow> 'a option) \<Rightarrow> citation list \<Rightarrow> 'a list" where
  "col_values f df = List.map_filter f df"

text \<open>\<^verbatim>\<open>df[df['name'] == v]\<close>\<close>
definition rows_eq :: "(citation \<Rightarrow> 'a option) \<Rightarrow> 'a \<Rightarrow> citation list \<Rightarrow> citation list" where
  "rows_eq f v df = filter (\<lambda>c. f c = Some v) df"

text \<open>\<^verbatim>\<open>Series.unique()\<close>: the distinct values in order of first appearance.\<close>
definition unique :: "'a list \<Rightarrow> 'a list" where
  "unique xs = rev (remdups (rev xs))"

text \<open>\<^verbatim>\<open>mean()\<close> of the values that are not NaN; NaN (\<open>None\<close>) when there is none.\<close>
definition mean :: "rat list \<Rightarrow> rat option" where
  "mean xs = (if xs = [] then None else Some (sum_list xs / of_nat (length xs)))"

section \<open>Exceptions\<close>

datatype error = KeyError string | ValueError string | AttributeError string

definition bind_result :: "error + 'a \<Rightarrow> ('a \<Rightarrow> error + 'b) \<Rightarrow> error + 'b" where
  "bind_result r k = (case r of Inl e \<Rightarrow> Inl e | Inr v \<Rightarrow> k v)"

section \<open>The library calls and the runtime\<close>

text \<open>
  What the engines use that is not code of the repository is a parameter of the
  embedding. \<open>fit_predict docs n\<close> is scikit-learn's
  \<^verbatim>\<open>TfidfVectorizer(max_features=100, stop_words='english', ngram_range=(1, 2))\<close>
  followed by \<^verbatim>\<open>KMeans(n_clusters=n, random_state=42).fit_predict\<close>: the cluster label of
  each document, or \<open>None\<close> when either call raises. \<open>related_by_similarity docs q\<close> is the
  body of the \<^verbatim>\<open>try\<close> in \<^verbatim>\<open>_find_related_queries\<close> (TF-IDF vectors and cosine
  similarity) on documents that are all strings: the related queries, or \<open>None\<close> when it
  raises. \<open>set_iteration keys\<close> is the order in which CPython iterates over the set holding
  \<open>keys\<close>; it depends on the per-process hash salt.
\<close>
record runtime =
  fit_predict :: "string list \<Rightarrow> nat \<Rightarrow> nat list option"
  related_by_similarity :: "string list \<Rightarrow> string \<Rightarrow> string list option"
  set_iteration :: "string list \<Rightarrow> string list"

text \<open>
  A runtime for closed examples: both library calls raise and a set iterates in the order
  its keys are listed.
\<close>
definition plain_runtime :: runtime where
  "plain_runtime = \<lparr>fit_predict = (\<lambda>docs n. None), related_by_similarity = (\<lambda>docs q. None),
                     set_iteration = (\<lambda>keys. keys)\<rparr>"

section \<open>Gap identification engine: the gap finders\<close>

definition estimate_content_effort :: "string \<Rightarrow> string" where
  "estimate_content_effort q =
     (let query_lower = py_lower q in
      if any_in [''api'', ''code'', ''programming'', ''technical'', ''advanced'', ''enterprise'']
           query_lower then ''high''
      else if any_in [''best'', ''comparison'', ''review'', ''vs'', ''analysis''] query_lower
        then ''high''
      else if any_in [''how to'', ''tutorial'', ''guide'', ''step''] query_lower then ''medium''
      else if any_in [''what is'', ''definition'', ''meaning''] query_lower then ''low''
      else ''medium'')"

text \<open>\<^verbatim>\<open>df[df['query'] == query]['source_domain'].unique().tolist()\<close>, guarded by the column.\<close>
definition competing_domains_of :: "citation list \<Rightarrow> string \<Rightarrow> string option list" where
  "competing_domains_of df q =
     (if has_col source_domain df then unique (map source_domain (rows_eq query q df)) else [])"

definition no_citation_gap :: "string \<Rightarrow> content_gap" where
  "no_citation_gap q =
     \<lparr>query_text = q, gap_type = ''no_citations'', opportunity_score = 8 / 10,
      competing_domains = [], difficulty_score = 2 / 10, priority = ''high'',
      estimated_effort = estimate_content_effort q, potential_impact = ''high''\<rparr>"

definition few_citations_gap :: "citation list \<Rightarrow> string \<Rightarrow> content_gap" where
  "few_citations_gap df q =
     \<lparr>query_text = q, gap_type = ''weak_citations'', opportunity_score = 7 / 10,
      competing_domains = competing_domains_of df q, difficulty_score = 3 / 10,
      priority = ''high'', estimated_effort = estimate_content_effort q,
      potential_impact = ''high''\<rparr>"

text \<open>\<^verbatim>\<open>_find_no_citation_gaps\<close>\<close>
definition find_no_citation_gaps :: "citation list \<Rightarrow> string list \<Rightarrow> content_gap list" where
  "find_no_citation_gaps df tracked_queries =
     (if \<not> has_col query df then []
      else concat (map (\<lambda>q.
        let citation_count = length (rows_eq query q df) in
        if citation_count = 0 then [no_citation_gap q]
        else if citation_count \<le> 2 then [few_citations_gap df q]
        else []) tracked_queries))"

definition low_prominence_gap :: "citation list \<Rightarrow> string \<Rightarrow> rat \<Rightarrow> content_gap" where
  "low_prominence_gap df q m =
     \<lparr>query_text = q, gap_type = ''weak_citations'', opportunity_score = 6 / 10 + (5 / 10 - m),
      competing_domains = competing_domains_of df q, difficulty_score = 4 / 10 + m * (4 / 10),
      priority = ''medium'', estimated_effort = estimate_content_effort q,
      potential_impact = ''medium''\<rparr>"

text \<open>
  \<^verbatim>\<open>_find_weak_citation_gaps\<close>. \<^verbatim>\<open>groupby('query')\<close> orders the groups by key and leaves
  out the rows without a query; \<^verbatim>\<open>mean\<close> and \<^verbatim>\<open>count\<close> are taken over the prominence
  scores present in the group.
\<close>
definition find_weak_citation_gaps :: "citation list \<Rightarrow> content_gap list" where
  "find_weak_citation_gaps df =
     (if \<not> has_col prominence_score df \<or> \<not> has_col query df then []
      else concat (map (\<lambda>q.
        let scores = col_values prominence_score (rows_eq query q df) in
        case mean scores of
          None \<Rightarrow> []
        | Some m \<Rightarrow> if m < 5 / 10 \<and> length scores \<ge> 2 then [low_prominence_gap df q m] else [])
        (sort (remdups (col_values query df)))))"

definition competitor_dominated_gap :: "citation list \<Rightarrow> string \<Rightarrow> rat \<Rightarrow> content_gap" where
  "competitor_dominated_gap df q competitor_share =
     \<lparr>query_text = q, gap_type = ''competitor_dominated'',
      opportunity_score = 5 / 10 - competitor_share * (2 / 10),
      competing_domains = unique (map source_domain (rows_eq query q df)),
      difficulty_score = 6 / 10 + competitor_share * (3 / 10),
      priority = (if competitor_share > 8 / 10 then ''low'' else ''medium''),
      estimated_effort = ''high'',
      potential_impact = (if competitor_share < 8 / 10 then ''high'' else ''medium'')\<rparr>"

text \<open>\<^verbatim>\<open>len(competitor_citations) / total_citations\<close> for one query.\<close>
definition competitor_share_of :: "citation list \<Rightarrow> string list \<Rightarrow> string \<Rightarrow> rat" where
  "competitor_share_of df competitor_domains_lower q =
     (let query_citations = rows_eq query q df;
          competitor_citations = filter (\<lambda>c. case source_domain c of
              None \<Rightarrow> False | Some d \<Rightarrow> d \<in> set competitor_domains_lower) query_citations
      in of_nat (length competitor_citations) / of_nat (length query_citations))"

text \<open>\<^verbatim>\<open>len(query_words & other_words)\<close> in the handler of \<^verbatim>\<open>_find_related_queries\<close>.\<close>
definition word_overlap :: "string \<Rightarrow> string \<Rightarrow> nat" where
  "word_overlap q other_query =
     length (filter (\<lambda>w. w \<in> set (py_split (py_lower other_query)))
               (remdups (py_split (py_lower q))))"

text \<open>
  The \<^verbatim>\<open>except\<close> handler of \<^verbatim>\<open>_find_related_queries\<close>: a loop over \<^verbatim>\<open>all_queries\<close>
  that stops at five related queries. An entry that is NaN (\<open>None\<close>) is not equal to the
  query, and \<^verbatim>\<open>other_query.lower()\<close> on it raises \<^verbatim>\<open>AttributeError\<close>, which nothing
  catches.
\<close>
fun fallback_related :: "string \<Rightarrow> string option list \<Rightarrow> string list \<Rightarrow> error + string list" where
  "fallback_related q [] related = Inr related"
| "fallback_related q (None # rest) related =
     Inl (AttributeError ''float object has no attribute lower'')"
| "fallback_related q (Some other_query # rest) related =
     (if other_query = q then fallback_related q rest related
      else if word_overlap q other_query \<ge> 2
        then (if length (related @ [other_query]) \<ge> 5 then Inr (related @ [other_query])
              else fallback_related q rest (related @ [other_query]))
        else fallback_related q rest related)"

text \<open>
  \<^verbatim>\<open>_find_related_queries\<close>. A NaN among the documents makes the vectorizer raise, so the
  handler runs; otherwise the library answers or raises.
\<close>
definition find_related_queries ::
    "runtime \<Rightarrow> string \<Rightarrow> string option list \<Rightarrow> error + string list" where
  "find_related_queries rt q all_queries =
     (if length all_queries < 2 then Inr []
      else if None \<in> set all_queries then fallback_related q all_queries []
      else (case related_by_similarity rt (List.map_filter (\<lambda>x. x) all_queries) q of
              Some related \<Rightarrow> Inr related
            | None \<Rightarrow> fallback_related q all_queries []))"

text \<open>
  The loop of \<^verbatim>\<open>_find_competitor_dominated_gaps\<close> over \<^verbatim>\<open>df['query'].unique()\<close>. A NaN
  in that array selects no row and is skipped by the \<^verbatim>\<open>total_citations < 3\<close> test, so the
  loop is over the queries present. Building a gap calls
  \<^verbatim>\<open>_find_related_queries(query, df['query'].unique().tolist())\<close>, where the NaN is still
  in the list; the related queries are not carried, the exception is.
\<close>
fun competitor_loop ::
    "runtime \<Rightarrow> citation list \<Rightarrow> string list \<Rightarrow> string list \<Rightarrow> error + content_gap list" where
  "competitor_loop rt df competitor_domains_lower [] = Inr []"
| "competitor_loop rt df competitor_domains_lower (q # qs) =
     (let total_citations = length (rows_eq query q df) in
      if total_citations < 3 then competitor_loop rt df competitor_domains_lower qs
      else
        let competitor_share = competitor_share_of df competitor_domains_lower q in
        if competitor_share \<ge> 6 / 10
        then bind_result (find_related_queries rt q (unique (map query df))) (\<lambda>related_queries.
             bind_result (competitor_loop rt df competitor_domains_lower qs) (\<lambda>gaps.
               Inr (competitor_dominated_gap df q competitor_share # gaps)))
        else competitor_loop rt df competitor_domains_lower qs)"

text \<open>\<^verbatim>\<open>_find_competitor_dominated_gaps\<close>\<close>
definition find_competitor_dominated_gaps ::
    "runtime \<Rightarrow> citation list \<Rightarrow> string list \<Rightarrow> error + content_gap list" where
  "find_competitor_dominated_gaps rt df competitor_domains =
     (if competitor_domains = [] \<or> \<not> has_col source_domain df \<or> \<not> has_col query df then Inr []
      else competitor_loop rt df (map py_lower competitor_domains)
             (unique (col_values query df)))"

section \<open>Gap identification engine: clusters and question variations\<close>

definition topic_cluster_gap :: "string \<Rightarrow> content_gap" where
  "topic_cluster_gap q =
     \<lparr>query_text = q, gap_type = ''topic_cluster_gap'', opportunity_score = 6 / 10,
      competing_domains = [], difficulty_score = 4 / 10, priority = ''medium'',
      estimated_effort = ''medium'', potential_impact = ''medium''\<rparr>"

text \<open>The body of the loop over \<^verbatim>\<open>range(n_clusters)\<close> in \<^verbatim>\<open>_find_topic_cluster_gaps\<close>.\<close>
definition cluster_gaps :: "citation list \<Rightarrow> string list \<Rightarrow> nat list \<Rightarrow> nat \<Rightarrow> content_gap list" where
  "cluster_gaps df tracked_queries clusters cluster_id =
     (let cluster_queries = map fst (filter (\<lambda>(q, l). l = cluster_id) (zip tracked_queries clusters)) in
      if length cluster_queries < 2 then []
      else
        let cluster_citation_counts =
              (if has_col query df
               then map (\<lambda>q. (q, length (rows_eq query q df))) cluster_queries else []) in
        if cluster_citation_counts = [] then []
        else
          let avg_citations = (of_nat (sum_list (map snd cluster_citation_counts)) :: rat)
                / of_nat (length cluster_citation_counts) in
          concat (map (\<lambda>(q, n).
            if of_nat n < avg_citations * (5 / 10) \<and> n < 3 then [topic_cluster_gap q] else [])
            cluster_citation_counts))"

text \<open>
  \<^verbatim>\<open>_find_topic_cluster_gaps\<close>. Whatever is raised inside its \<^verbatim>\<open>try\<close> is caught and the
  gaps found so far, none, are returned: so when the library raises, and when
  \<^verbatim>\<open>clusters[i]\<close> is read beyond a label list shorter than the tracked queries.
\<close>
definition find_topic_cluster_gaps ::
    "runtime \<Rightarrow> citation list \<Rightarrow> string list \<Rightarrow> content_gap list" where
  "find_topic_cluster_gaps rt df tracked_queries =
     (if length tracked_queries < 10 then []
      else
        let n_clusters = min 5 (length tracked_queries div 4) in
        if n_clusters < 2 then []
        else (case fit_predict rt tracked_queries n_clusters of
                None \<Rightarrow> []
              | Some clusters \<Rightarrow>
                  if length clusters < length tracked_queries then []
                  else concat (map (cluster_gaps df tracked_queries clusters)
                                 [0..<n_clusters])))"

text \<open>The ordered dictionary \<^verbatim>\<open>question_patterns\<close>, each expression as its alternatives.\<close>
definition question_patterns :: "(string \<times> string list list) list" where
  "question_patterns =
     [(''what_is'', [[''what'', ''is'']]),
      (''how_to'', [[''how'', ''to''], [''how'', ''do''], [''how'', ''can'']]),
      (''why'', [[''why'']]),
      (''when'', [[''when'']]),
      (''where'', [[''where'']]),
      (''which'', [[''which'']]),
      (''best'', [[''best'']]),
      (''vs_comparison'', [[''vs''], [''versus'']])]"

definition question_type_of :: "string \<Rightarrow> string" where
  "question_type_of query_lower =
     (case filter (\<lambda>(qtype, pattern). re_search pattern query_lower) question_patterns of
        [] \<Rightarrow> ''general''
      | (qtype, pattern) # rest \<Rightarrow> qtype)"

definition question_words :: "string list" where
  "question_words = [''what'', ''is'', ''how'', ''to'', ''do'', ''can'', ''why'', ''when'',
     ''where'', ''which'', ''the'', ''a'', ''an'']"

text \<open>The topic of a query, \<open>None\<close> when it has no content word.\<close>
definition topic_of :: "string \<Rightarrow> string option" where
  "topic_of query_lower =
     (let content_words = filter (\<lambda>w. w \<notin> set question_words) (py_split query_lower) in
      if content_words = [] then None else Some (join_space (take 3 content_words)))"

text \<open>
  \<^verbatim>\<open>topic_variations\<close> after the first loop of \<^verbatim>\<open>_find_question_variation_gaps\<close>: a
  dictionary keeps its keys in the order of their first insertion, and each list the
  queries in the order of the tracked queries.
\<close>
definition topic_variations :: "string list \<Rightarrow> (string \<times> (string \<times> string list) list) list" where
  "topic_variations tracked_queries =
     (let keyed = List.map_filter (\<lambda>q.
            case topic_of (py_lower q) of
              None \<Rightarrow> None
            | Some topic \<Rightarrow> Some (topic, question_type_of (py_lower q), q)) tracked_queries
      in map (\<lambda>topic.
           let here = filter (\<lambda>(t, qtype, q). t = topic) keyed in
           (topic, map (\<lambda>question_type.
              (question_type,
               map (\<lambda>(t, qtype, q). q) (filter (\<lambda>(t, qtype, q). qtype = question_type) here)))
              (unique (map (\<lambda>(t, qtype, q). qtype) here))))
           (unique (map (\<lambda>(t, qtype, q). t) keyed)))"

text \<open>\<^verbatim>\<open>_generate_question_variation\<close>\<close>
definition generate_question_variation :: "string \<Rightarrow> string \<Rightarrow> string" where
  "generate_question_variation topic question_type =
     (if question_type = ''what_is'' then ''What is '' @ topic @ ''?''
      else if question_type = ''how_to'' then ''How to '' @ topic
      else if question_type = ''best'' then ''Best '' @ topic
      else if question_type = ''why'' then ''Why '' @ topic
      else if question_type = ''when'' then ''When '' @ topic
      else if question_type = ''where'' then ''Where '' @ topic
      else if question_type = ''which'' then ''Which '' @ topic
      else if question_type = ''vs_comparison'' then topic @ '' vs alternatives''
      else topic)"

definition question_variation_gap :: "string \<Rightarrow> nat \<Rightarrow> content_gap" where
  "question_variation_gap suggested_query total_citations =
     \<lparr>query_text = suggested_query, gap_type = ''question_variation'',
      opportunity_score = 5 / 10 + of_nat (min total_citations 10) * (3 / 100),
      competing_domains = [], difficulty_score = 3 / 10, priority = ''medium'',
      estimated_effort = ''medium'', potential_impact = ''medium''\<rparr>"

text \<open>The gaps of one topic, in the second loop of \<^verbatim>\<open>_find_question_variation_gaps\<close>.\<close>
definition topic_gaps ::
    "runtime \<Rightarrow> citation list \<Rightarrow> string \<times> (string \<times> string list) list \<Rightarrow> content_gap list" where
  "topic_gaps rt df entry =
     (case entry of (topic, variations) \<Rightarrow>
        (case variations of
           [(existing_type, existing_queries)] \<Rightarrow>
             let total_citations =
                   (if has_col query df
                    then sum_list (map (\<lambda>q. length (rows_eq query q df)) existing_queries)
                    else 0);
                 missing_types = set_iteration rt
                   (filter (\<lambda>k. k \<noteq> existing_type) (map fst question_patterns))
             in concat (map (\<lambda>missing_type.
                  if missing_type \<in> set [''what_is'', ''how_to'', ''best'']
                  then (let suggested_query = generate_question_variation topic missing_type in
                        if suggested_query \<noteq> []
                        then [question_variation_gap suggested_query total_citations] else [])
                  else []) missing_types)
         | _ \<Rightarrow> []))"

text \<open>\<^verbatim>\<open>_find_question_variation_gaps\<close>\<close>
definition find_question_variation_gaps ::
    "runtime \<Rightarrow> citation list \<Rightarrow> string list \<Rightarrow> content_gap list" where
  "find_question_variation_gaps rt df tracked_queries =
     concat (map (topic_gaps rt df) (topic_variations tracked_queries))"

section \<open>Gap identification engine: the entry point\<close>

text \<open>
  \<^verbatim>\<open>identify_content_gaps\<close>; \<^verbatim>\<open>competitor_domains=None\<close> is the empty list
  (\<^verbatim>\<open>competitor_domains or []\<close>). The entry point has no \<^verbatim>\<open>try\<close>: what
  \<^verbatim>\<open>_find_competitor_dominated_gaps\<close> raises escapes. The other four finders raise nothing:
  \<^verbatim>\<open>_find_no_citation_gaps\<close> hands \<^verbatim>\<open>_find_related_queries\<close> the tracked queries, which
  are all strings.
\<close>
definition identify_content_gaps ::
    "runtime \<Rightarrow> citation list \<Rightarrow> string list \<Rightarrow> string list \<Rightarrow> error + content_gap list" where
  "identify_content_gaps rt citations tracked_queries competitor_domains =
     (if citations = [] \<or> tracked_queries = [] then Inr []
      else
        let df = citations in
        bind_result (find_competitor_dominated_gaps rt df competitor_domains)
          (\<lambda>competitor_dominated_gaps.
            Inr (score_and_prioritize_gaps
                  (find_no_citation_gaps df tracked_queries
                   @ find_weak_citation_gaps df
                   @ competitor_dominated_gaps
                   @ find_topic_cluster_gaps rt df tracked_queries
                   @ find_question_variation_gaps rt df tracked_queries))))"

section \<open>Pattern recognition engine\<close>

text \<open>
  \<^verbatim>\<open>CitationPattern\<close>. The fields \<^verbatim>\<open>pattern_id\<close>, \<^verbatim>\<open>description\<close>, \<^verbatim>\<open>examples\<close>,
  \<^verbatim>\<open>characteristics\<close>, \<^verbatim>\<open>engines\<close>, \<^verbatim>\<open>domains\<close>, \<^verbatim>\<open>content_types\<close> and
  \<^verbatim>\<open>time_range\<close> describe the pattern and are not carried; the \<^verbatim>\<open>KeyError\<close> that
  building them raises when a column they read without a guard (\<^verbatim>\<open>df['engine']\<close>,
  \<^verbatim>\<open>df['citation_type']\<close>) is absent is kept, as \<open>require_col\<close>.
\<close>
record citation_pattern =
  pattern_type :: string
  frequency :: nat
  strength :: rat

definition min_pattern_frequency :: nat where
  "min_pattern_frequency = 3"

text \<open>Reading a column: \<^verbatim>\<open>KeyError\<close> when the frame does not have it.\<close>
definition require_col ::
    "(citation \<Rightarrow> 'a option) \<Rightarrow> string \<Rightarrow> citation list \<Rightarrow> error + 'b \<Rightarrow> error + 'b" where
  "require_col f name df k = (if has_col f df then k else Inl (KeyError name))"

text \<open>The mean of a list that is not empty.\<close>
definition avg :: "rat list \<Rightarrow> rat" where
  "avg xs = sum_list xs / of_nat (length xs)"

text \<open>
  \<^verbatim>\<open>value_counts()\<close>: each value that is not NaN with the number of rows holding it.
  pandas lists them by descending count; the model lists them by first appearance and
  reads \<^verbatim>\<open>iloc[0]\<close> as the largest count. \<open>groupby\<close> gives the rows of each key that is
  not NaN; every aggregate the pattern engine takes over the groups is independent of
  their order.
\<close>
definition value_counts :: "(citation \<Rightarrow> 'a option) \<Rightarrow> citation list \<Rightarrow> ('a \<times> nat) list" where
  "value_counts f df = map (\<lambda>v. (v, length (rows_eq f v df))) (unique (col_values f df))"

definition groupby :: "(citation \<Rightarrow> 'k option) \<Rightarrow> citation list \<Rightarrow> ('k \<times> citation list) list" where
  "groupby key df = map (\<lambda>k. (k, rows_eq key k df)) (unique (col_values key df))"

text \<open>\<^verbatim>\<open>groupby(...).size()\<close> over a derived column, as the list of group sizes.\<close>
definition group_sizes :: "'a list \<Rightarrow> nat list" where
  "group_sizes xs = map (count_list xs) (unique xs)"

text \<open>First half of \<^verbatim>\<open>_analyze_domain_patterns\<close>: domain frequency.\<close>
definition domain_frequency_scan :: "citation list \<Rightarrow> error + citation_pattern list" where
  "domain_frequency_scan df =
     (let domain_counts = value_counts source_domain df;
          high_freq_domains = filter (\<lambda>(d, n). n \<ge> min_pattern_frequency) domain_counts in
      if length high_freq_domains > 0
      then require_col engine ''engine'' df (require_col citation_type ''citation_type'' df
             (Inr [\<lparr>pattern_type = ''domain_frequency'',
                    frequency = length high_freq_domains,
                    strength = min 1 (of_nat (length high_freq_domains) / 10)\<rparr>]))
      else Inr [])"

text \<open>Second half: domain prominence.\<close>
definition domain_prominence_scan :: "citation list \<Rightarrow> error + citation_pattern list" where
  "domain_prominence_scan df =
     (if has_col prominence_score df
      then
        let domain_prominence = map (\<lambda>(d, rows).
              let scores = col_values prominence_score rows in (mean scores, length scores))
              (groupby source_domain df);
            high_prominence = filter (\<lambda>(m, n).
              (case m of None \<Rightarrow> False | Some v \<Rightarrow> v \<ge> 7 / 10) \<and> n \<ge> 2) domain_prominence in
        if length high_prominence > 0
        then require_col engine ''engine'' df (require_col citation_type ''citation_type'' df
               (Inr [\<lparr>pattern_type = ''domain_prominence'',
                      frequency = length high_prominence,
                      strength = avg (List.map_filter fst high_prominence)\<rparr>]))
        else Inr []
      else Inr [])"

definition analyze_domain_patterns :: "citation list \<Rightarrow> error + citation_pattern list" where
  "analyze_domain_patterns df =
     (if \<not> has_col source_domain df then Inr []
      else bind_result (domain_frequency_scan df) (\<lambda>p1.
           bind_result (domain_prominence_scan df) (\<lambda>p2. Inr (p1 @ p2))))"

text \<open>\<^verbatim>\<open>round(3)\<close>: scale by 1000, round half to even, scale back.\<close>
definition round3 :: "rat \<Rightarrow> rat" where
  "round3 x =
     (let y = x * 1000; f = \<lfloor>y\<rfloor>; r = y - of_int f in
      of_int (if r < 1 / 2 then f else if r > 1 / 2 then f + 1
              else if even f then f else f + 1) / 1000)"

text \<open>
  \<^verbatim>\<open>_analyze_content_type_patterns\<close>. The dictionary given to \<^verbatim>\<open>agg\<close> always names the
  columns \<^verbatim>\<open>prominence_score\<close> and \<^verbatim>\<open>position\<close>, and \<^verbatim>\<open>agg\<close> raises \<^verbatim>\<open>KeyError\<close> for a
  column the frame does not have.
\<close>
definition analyze_content_type_patterns :: "citation list \<Rightarrow> error + citation_pattern list" where
  "analyze_content_type_patterns df =
     (if \<not> has_col citation_type df then Inr []
      else require_col prominence_score ''prominence_score'' df
           (require_col position ''position'' df
        (let type_stats = map (\<lambda>(t, rows).
               let scores = col_values prominence_score rows in
               (map_option round3 (mean scores), length scores)) (groupby citation_type df);
             high_performing_types = filter (\<lambda>(m, n).
               (case m of None \<Rightarrow> False | Some v \<Rightarrow> v \<ge> 6 / 10) \<and> n \<ge> 3) type_stats in
         if length high_performing_types > 0
         then require_col engine ''engine'' df
                (Inr [\<lparr>pattern_type = ''content_type_performance'',
                       frequency = sum_list (map snd high_performing_types),
                       strength = avg (List.map_filter fst high_performing_types)\<rparr>])
         else Inr [])))"

text \<open>The key of \<^verbatim>\<open>groupby(['source_domain', 'citation_type'])\<close>.\<close>
definition domain_and_type :: "citation \<Rightarrow> (string \<times> string) option" where
  "domain_and_type c =
     (case source_domain c of
        None \<Rightarrow> None
      | Some d \<Rightarrow> (case citation_type c of None \<Rightarrow> None | Some t \<Rightarrow> Some (d, t)))"

text \<open>\<^verbatim>\<open>df[df['position'] <= 3]\<close>\<close>
definition top_positions_of :: "citation list \<Rightarrow> citation list" where
  "top_positions_of df = filter (\<lambda>c. case position c of None \<Rightarrow> False | Some p \<Rightarrow> p \<le> 3) df"

text \<open>
  \<^verbatim>\<open>position_stats\<close> restricted to \<^verbatim>\<open>('position', 'count') >= 2\<close>: the mean position and
  the size of each group kept.
\<close>
definition consistent_top_of :: "citation list \<Rightarrow> (rat \<times> nat) list" where
  "consistent_top_of top_positions =
     filter (\<lambda>(m, n). n \<ge> 2)
       (map (\<lambda>(k, rows).
          let ps = col_values position rows in (avg (map of_int ps), length ps))
          (groupby domain_and_type top_positions))"

text \<open>\<^verbatim>\<open>_analyze_position_patterns\<close>\<close>
definition analyze_position_patterns :: "citation list \<Rightarrow> error + citation_pattern list" where
  "analyze_position_patterns df =
     (if \<not> has_col position df then Inr []
      else
        let top_positions = top_positions_of df in
        if length top_positions \<ge> min_pattern_frequency
        then require_col source_domain ''source_domain'' df
            (require_col citation_type ''citation_type'' df
            (require_col prominence_score ''prominence_score'' df
          (let consistent_top = consistent_top_of top_positions in
           if length consistent_top > 0
           then require_col engine ''engine'' df
                  (Inr [\<lparr>pattern_type = ''position_consistency'',
                         frequency = sum_list (map snd consistent_top),
                         strength = 1 - avg (map fst consistent_top) / 10\<rparr>])
           else Inr [])))
        else Inr [])"

text \<open>The calendar day of a point in time, and its weekday (0 is Monday).\<close>
definition date_of :: "int \<Rightarrow> int" where
  "date_of t = t div 86400"

definition day_of_week :: "int \<Rightarrow> int" where
  "day_of_week t = (date_of t + 3) mod 7"

text \<open>Daily part of \<^verbatim>\<open>_analyze_temporal_patterns\<close>.\<close>
definition temporal_spikes_scan :: "citation list \<Rightarrow> error + citation_pattern list" where
  "temporal_spikes_scan df =
     (let daily_counts = group_sizes (map date_of (col_values created_at df)) in
      if length daily_counts \<ge> 7
      then
        let avg_daily = avg (map of_nat daily_counts);
            high_activity_days = filter (\<lambda>n. of_nat n > avg_daily * (15 / 10)) daily_counts in
        if length high_activity_days \<ge> 2
        then require_col engine ''engine'' df (require_col citation_type ''citation_type'' df
               (Inr [\<lparr>pattern_type = ''temporal_spikes'',
                      frequency = length high_activity_days,
                      strength = min 1 (of_nat (length high_activity_days)
                                        / of_nat (length daily_counts))\<rparr>]))
        else Inr []
      else Inr [])"

text \<open>Weekly part.\<close>
definition weekly_variation_scan :: "citation list \<Rightarrow> error + citation_pattern list" where
  "weekly_variation_scan df =
     (let weekly_patterns = group_sizes (map day_of_week (col_values created_at df)) in
      if length weekly_patterns > 0
      then
        let hi = Max (set weekly_patterns); lo = Min (set weekly_patterns) in
        if (of_nat hi :: rat) / of_nat lo > 15 / 10
        then require_col engine ''engine'' df (require_col citation_type ''citation_type'' df
               (Inr [\<lparr>pattern_type = ''weekly_variation'',
                      frequency = length df,
                      strength = min 1 ((of_nat hi - of_nat lo)
                                        / avg (map of_nat weekly_patterns))\<rparr>]))
        else Inr []
      else Inr [])"

definition analyze_temporal_patterns :: "citation list \<Rightarrow> error + citation_pattern list" where
  "analyze_temporal_patterns df =
     (if \<not> has_col created_at df then Inr []
      else bind_result (temporal_spikes_scan df) (\<lambda>p1.
           bind_result (weekly_variation_scan df) (\<lambda>p2. Inr (p1 @ p2))))"

text \<open>
  The loop over \<^verbatim>\<open>df['engine'].unique()\<close> in \<^verbatim>\<open>_analyze_engine_patterns\<close>. A NaN among
  the engines selects no row; \<^verbatim>\<open>idxmax\<close> of an empty series raises \<^verbatim>\<open>ValueError\<close>.
\<close>
fun engine_loop :: "citation list \<Rightarrow> string option list \<Rightarrow> error + citation_pattern list" where
  "engine_loop df [] = Inr []"
| "engine_loop df (e # es) =
     (let engine_data = (case e of None \<Rightarrow> [] | Some v \<Rightarrow> rows_eq engine v df) in
      if has_col citation_type df
      then
        let type_prefs = value_counts citation_type engine_data in
        if type_prefs = []
        then Inl (ValueError ''attempt to get argmax of an empty sequence'')
        else
          let top = Max (set (map snd type_prefs)) in
          if (of_nat top :: rat) / of_nat (length engine_data) > 6 / 10
          then bind_result (engine_loop df es) (\<lambda>ps. Inr
                 (\<lparr>pattern_type = ''engine_content_preference'',
                   frequency = top,
                   strength = of_nat top / of_nat (length engine_data)\<rparr> # ps))
          else engine_loop df es
      else engine_loop df es)"

text \<open>
  \<^verbatim>\<open>_analyze_engine_patterns\<close>. The dictionary given to \<^verbatim>\<open>agg\<close> names
  \<^verbatim>\<open>prominence_score\<close>, \<^verbatim>\<open>position\<close> and \<^verbatim>\<open>source_domain\<close>.
\<close>
definition analyze_engine_patterns :: "citation list \<Rightarrow> error + citation_pattern list" where
  "analyze_engine_patterns df =
     (if \<not> has_col engine df then Inr []
      else require_col prominence_score ''prominence_score'' df
          (require_col position ''position'' df
          (require_col source_domain ''source_domain'' df
        (if has_col prominence_score df then engine_loop df (unique (map engine df))
         else Inr []))))"

text \<open>The \<^verbatim>\<open>"key:value"\<close> tokens of the scalar entries of every metadata dictionary.\<close>
definition feature_tokens :: "citation list \<Rightarrow> string list" where
  "feature_tokens df =
     concat (map (List.map_filter (\<lambda>(k, v).
        case v of Scalar s \<Rightarrow> Some (k @ '':'' @ s) | Nested \<Rightarrow> None)) (col_values metadata df))"

text \<open>\<^verbatim>\<open>_analyze_content_feature_patterns\<close>\<close>
definition analyze_content_feature_patterns :: "citation list \<Rightarrow> error + citation_pattern list" where
  "analyze_content_feature_patterns df =
     (if \<not> has_col metadata df then Inr []
      else if col_values metadata df = [] then Inr []
      else
        let tokens = feature_tokens df;
            feature_counts = map (\<lambda>t. (t, count_list tokens t)) (unique tokens);
            frequent_features = filter (\<lambda>(t, n). n \<ge> min_pattern_frequency) feature_counts in
        if frequent_features \<noteq> []
        then require_col engine ''engine'' df (require_col citation_type ''citation_type'' df
               (Inr [\<lparr>pattern_type = ''content_features'',
                      frequency = sum_list (map snd frequent_features),
                      strength = of_nat (length frequent_features)
                                 / of_nat (max (length feature_counts) 1)\<rparr>]))
        else Inr [])"

text \<open>
  The loop over \<^verbatim>\<open>range(n_clusters)\<close> in \<^verbatim>\<open>_analyze_query_similarity_patterns\<close>. It runs
  inside the \<^verbatim>\<open>try\<close>: the \<^verbatim>\<open>KeyError\<close> of an absent column ends the loop and the
  patterns gathered so far are returned.
\<close>
fun cluster_loop :: "citation list \<Rightarrow> nat list \<Rightarrow> nat list \<Rightarrow> citation_pattern list" where
  "cluster_loop df clusters [] = []"
| "cluster_loop df clusters (cluster_id # rest) =
     (let cluster_data = map fst (filter (\<lambda>(c, l). l = cluster_id) (zip df clusters)) in
      if length cluster_data \<ge> min_pattern_frequency \<and> has_col source_domain df
      then (if has_col engine df \<and> has_col citation_type df
            then \<lparr>pattern_type = ''query_similarity'',
                  frequency = length cluster_data,
                  strength = of_nat (length cluster_data) / of_nat (length df)\<rparr>
                 # cluster_loop df clusters rest
            else [])
      else cluster_loop df clusters rest)"

text \<open>
  \<^verbatim>\<open>_analyze_query_similarity_patterns\<close>; the documents are \<^verbatim>\<open>df['query'].fillna('')\<close>.
  Assigning a label list of another length than the frame raises inside the \<^verbatim>\<open>try\<close>.
\<close>
definition analyze_query_similarity_patterns ::
    "runtime \<Rightarrow> citation list \<Rightarrow> citation_pattern list" where
  "analyze_query_similarity_patterns rt df =
     (if \<not> has_col query df \<or> length df < 10 then []
      else
        let n_clusters = min 5 (length df div 3) in
        if n_clusters \<ge> 2
        then (case fit_predict rt
                     (map (\<lambda>c. case query c of None \<Rightarrow> [] | Some q \<Rightarrow> q) df) n_clusters of
                None \<Rightarrow> []
              | Some clusters \<Rightarrow>
                  if length clusters \<noteq> length df then []
                  else cluster_loop df clusters [0..<n_clusters])
        else [])"

text \<open>
  \<^verbatim>\<open>analyze_citation_patterns\<close>: seven sub-scans in sequence; only the last has a
  \<^verbatim>\<open>try\<close> around its body.
\<close>
definition analyze_citation_patterns ::
    "runtime \<Rightarrow> citation list \<Rightarrow> error + citation_pattern list" where
  "analyze_citation_patterns rt citations =
     (if citations = [] then Inr []
      else
        let df = citations in
        bind_result (analyze_domain_patterns df) (\<lambda>domain_patterns.
        bind_result (analyze_content_type_patterns df) (\<lambda>content_type_patterns.
        bind_result (analyze_position_patterns df) (\<lambda>position_patterns.
        bind_result (analyze_temporal_patterns df) (\<lambda>temporal_patterns.
        bind_result (analyze_engine_patterns df) (\<lambda>engine_patterns.
        bind_result (analyze_content_feature_patterns df) (\<lambda>feature_patterns.
        Inr (domain_patterns @ content_type_patterns @ position_patterns
             @ temporal_patterns @ engine_patterns @ feature_patterns
             @ analyze_query_similarity_patterns rt df))))))))"

section \<open>Notions of the specification\<close>


text \<open>
  A complete citation record has every key of the data model that the engines read
  (\<open>metadata\<close> may be absent). The input invariant of the data model: a prominence score
  lies in [0, 1] and a position is not negative.
\<close>
definition complete :: "citation \<Rightarrow> bool" where
  "complete c \<longleftrightarrow> engine c \<noteq> None \<and> query c \<noteq> None \<and> position c \<noteq> None
     \<and> citation_type c \<noteq> None \<and> source_domain c \<noteq> None \<and> prominence_score c \<noteq> None
     \<and> created_at c \<noteq> None"

definition input_invariant :: "citation \<Rightarrow> bool" where
  "input_invariant c \<longleftrightarrow>
     (case prominence_score c of None \<Rightarrow> True | Some p \<Rightarrow> 0 \<le> p \<and> p \<le> 1)
     \<and> (case position c of None \<Rightarrow> True | Some n \<Rightarrow> 0 \<le> n)"

section \<open>Sample inputs\<close>

text \<open>A citation with every key, and one that carries the key \<^verbatim>\<open>source_domain\<close> only.\<close>
definition sample_citation :: "string \<Rightarrow> string \<Rightarrow> rat \<Rightarrow> int \<Rightarrow> citation" where
  "sample_citation q d p pos =
     \<lparr>engine = Some ''google'', query = Some q, position = Some pos,
      citation_type = Some ''organic'', source_domain = Some d, prominence_score = Some p,
      created_at = Some 0, metadata = Some []\<rparr>"

definition domain_only_citation :: "string \<Rightarrow> citation" where
  "domain_only_citation d =
     \<lparr>engine = None, query = None, position = None, citation_type = None,
      source_domain = Some d, prominence_score = None, created_at = None, metadata = None\<rparr>"

section \<open>Properties\<close>

subsection \<open>Strings\<close>

lemma is_substr_map: "is_substr w s \<Longrightarrow> is_substr (map f w) (map f s)"
proof (induction s)
  case Nil
  then show ?case by simp
next
  case (Cons c cs)
  from Cons.prems have "prefix w (c # cs) \<or> is_substr w cs" by simp
  then show ?case
  proof
    assume "prefix w (c # cs)"
    then have "prefix (map f w) (map f (c # cs))" by (rule map_mono_prefix)
    then show ?thesis by simp
  next
    assume "is_substr w cs"
    then have "is_substr (map f w) (map f cs)" by (rule Cons.IH)
    then show ?thesis by simp
  qed
qed

lemma py_lower_high_value_words: "map py_lower high_value_words = high_value_words"
  by (simp add: high_value_words_def py_lower_def lower_char_def)

lemma py_lower_commercial_words: "map py_lower commercial_words = commercial_words"
  by (simp add: commercial_words_def py_lower_def lower_char_def)

lemma any_in_lower:
  assumes "map py_lower ws = ws" and "any_in ws s"
  shows "any_in ws (py_lower s)"
proof -
  from assms(2) obtain w where w: "w \<in> set ws" "is_substr w s"
    by (auto simp: any_in_def list_ex_iff)
  from assms(1) have "\<forall>x\<in>set ws. py_lower x = x"
    by (induction ws) auto
  with w(1) have "py_lower w = w" by blast
  moreover from w(2) have "is_substr (py_lower w) (py_lower s)"
    unfolding py_lower_def by (rule is_substr_map)
  ultimately show ?thesis using w(1) by (auto simp: any_in_def list_ex_iff)
qed

subsection \<open>The scoring pass\<close>

lemma boost_high_value_query_text [simp]: "query_text (boost_high_value g) = query_text g"
  by (simp add: boost_high_value_def)

lemma sort_by_opportunity_descending:
  "sorted_wrt (\<lambda>a b. opportunity_score a \<ge> opportunity_score b) (sort_by_opportunity gaps)"
proof -
  have "sorted (map (\<lambda>g. - opportunity_score g) (sort_by_opportunity gaps))"
    unfolding sort_by_opportunity_def by (rule sorted_sort_key)
  then show ?thesis by (simp add: sorted_map)
qed

lemma sort_by_opportunity_stable:
  "filter (\<lambda>g. opportunity_score g = k) (sort_by_opportunity gaps) =
   filter (\<lambda>g. opportunity_score g = k) gaps"
proof -
  have "filter (\<lambda>g. - opportunity_score g = - k) (sort_by_opportunity gaps) =
        filter (\<lambda>g. - opportunity_score g = - k) gaps"
    unfolding sort_by_opportunity_def by (rule sort_key_stable)
  then show ?thesis by simp
qed

lemma mset_sort_by_opportunity [simp]: "mset (sort_by_opportunity gaps) = mset gaps"
  by (simp add: sort_by_opportunity_def)

lemma set_sort_by_opportunity [simp]: "set (sort_by_opportunity gaps) = set gaps"
  by (simp add: sort_by_opportunity_def)

lemma score_and_prioritize_gaps_eq:
  "score_and_prioritize_gaps gaps = sort_by_opportunity (map score_gap gaps)"
  by (simp add: score_and_prioritize_gaps_def sort_by_opportunity_def)

text \<open>
  C7. In the scoring pass a gap whose query text contains one of "how to", "best", "guide",
  "tutorial" gets 0.1 added to its opportunity score, clamped to 1.0; one whose text
  contains one of "buy", "price", "cost", "review", "comparison" gets 0.15 added, clamped,
  and potential impact high; both boosts apply in this order when both match. The returned
  list holds the adjusted gaps in descending order of final score, and gaps of equal score
  keep their discovery order (the sort is stable).
\<close>
theorem scoring_pass_boosts_then_stable_descending_sort:
  "(any_in high_value_words (query_text g) \<longrightarrow>
      opportunity_score (boost_high_value g) = min 1 (opportunity_score g + 1 / 10))
   \<and> (any_in commercial_words (query_text g) \<longrightarrow>
      opportunity_score (boost_commercial g) = min 1 (opportunity_score g + 15 / 100)
      \<and> potential_impact (boost_commercial g) = ''high''
      \<and> potential_impact (score_gap g) = ''high'')
   \<and> opportunity_score (score_gap g) = opportunity_score (boost_commercial (boost_high_value g))
   \<and> mset (score_and_prioritize_gaps gaps) = mset (map score_gap gaps)
   \<and> sorted_wrt (\<lambda>a b. opportunity_score a \<ge> opportunity_score b)
        (score_and_prioritize_gaps gaps)
   \<and> filter (\<lambda>x. opportunity_score x = k) (score_and_prioritize_gaps gaps) =
      filter (\<lambda>x. opportunity_score x = k) (map score_gap gaps)"
proof (intro conjI impI)
  assume "any_in high_value_words (query_text g)"
  then have "any_in high_value_words (py_lower (query_text g))"
    by (rule any_in_lower [OF py_lower_high_value_words])
  then show "opportunity_score (boost_high_value g) = min 1 (opportunity_score g + 1 / 10)"
    by (simp add: boost_high_value_def)
next
  assume "any_in commercial_words (query_text g)"
  then have c: "any_in commercial_words (py_lower (query_text g))"
    by (rule any_in_lower [OF py_lower_commercial_words])
  then show "opportunity_score (boost_commercial g) = min 1 (opportunity_score g + 15 / 100)"
    by (simp add: boost_commercial_def)
  from c show "potential_impact (boost_commercial g) = ''high''"
    by (simp add: boost_commercial_def)
  from c show "potential_impact (score_gap g) = ''high''"
    by (simp add: score_gap_def adjust_priority_def boost_commercial_def)
next
  show "opportunity_score (score_gap g) =
        opportunity_score (boost_commercial (boost_high_value g))"
    by (simp add: score_gap_def adjust_priority_def)
next
  show "mset (score_and_prioritize_gaps gaps) = mset (map score_gap gaps)"
    by (simp add: score_and_prioritize_gaps_eq)
next
  show "sorted_wrt (\<lambda>a b. opportunity_score a \<ge> opportunity_score b)
          (score_and_prioritize_gaps gaps)"
    unfolding score_and_prioritize_gaps_eq by (rule sort_by_opportunity_descending)
next
  show "filter (\<lambda>x. opportunity_score x = k) (score_and_prioritize_gaps gaps) =
        filter (\<lambda>x. opportunity_score x = k) (map score_gap gaps)"
    unfolding score_and_prioritize_gaps_eq by (rule sort_by_opportunity_stable)
qed

theorem scoring_pass_boosts_then_stable_descending_sort_witness:
  "any_in high_value_words ''best crm''
   \<and> opportunity_score (boost_high_value
        \<lparr>query_text = ''best crm'', gap_type = ''no_citations'', opportunity_score = 8 / 10,
         competing_domains = [], difficulty_score = 2 / 10, priority = ''high'',
         estimated_effort = ''high'', potential_impact = ''medium''\<rparr>) = 9 / 10
   \<and> any_in commercial_words ''crm price''
   \<and> potential_impact (score_gap
        \<lparr>query_text = ''crm price'', gap_type = ''no_citations'', opportunity_score = 8 / 10,
         competing_domains = [], difficulty_score = 2 / 10, priority = ''high'',
         estimated_effort = ''medium'', potential_impact = ''medium''\<rparr>) = ''high''"
  using scoring_pass_boosts_then_stable_descending_sort
    [of "\<lparr>query_text = ''best crm'', gap_type = ''no_citations'', opportunity_score = 8 / 10,
         competing_domains = [], difficulty_score = 2 / 10, priority = ''high'',
         estimated_effort = ''high'', potential_impact = ''medium''\<rparr>" "[]" 0]
    scoring_pass_boosts_then_stable_descending_sort
    [of "\<lparr>query_text = ''crm price'', gap_type = ''no_citations'', opportunity_score = 8 / 10,
         competing_domains = [], difficulty_score = 2 / 10, priority = ''high'',
         estimated_effort = ''medium'', potential_impact = ''medium''\<rparr>" "[]" 0]
  by (simp add: any_in_def high_value_words_def commercial_words_def)

subsection \<open>Data frame and gap finders\<close>

lemma has_col_iff: "has_col f df \<longleftrightarrow> (\<exists>c\<in>set df. f c \<noteq> None)"
  by (simp add: has_col_def list_ex_iff)

lemma has_col_rows_eq: "rows_eq f v df \<noteq> [] \<Longrightarrow> has_col f df"
  by (auto simp: has_col_iff rows_eq_def filter_empty_conv)

lemma set_rows_eq: "set (rows_eq f v df) = {c \<in> set df. f c = Some v}"
  by (simp add: rows_eq_def)

lemma set_unique [simp]: "set (unique xs) = set xs"
  by (simp add: unique_def)

lemma distinct_unique [simp]: "distinct (unique xs)"
  by (simp add: unique_def)

lemma set_map_filter_conv: "set (List.map_filter f xs) = {v. \<exists>x\<in>set xs. f x = Some v}"
  by (induction xs) (auto split: option.splits)

lemma set_col_values: "set (col_values f df) = {v. \<exists>c\<in>set df. f c = Some v}"
  by (simp add: col_values_def set_map_filter_conv)

lemma score_gap_gap_type [simp]: "gap_type (score_gap g) = gap_type g"
  by (simp add: score_gap_def adjust_priority_def boost_commercial_def boost_high_value_def)

lemma score_gap_query_text [simp]: "query_text (score_gap g) = query_text g"
  by (simp add: score_gap_def adjust_priority_def boost_commercial_def boost_high_value_def)

lemma score_gap_difficulty [simp]: "difficulty_score (score_gap g) = difficulty_score g"
  by (simp add: score_gap_def adjust_priority_def boost_commercial_def boost_high_value_def)

lemma bind_result_Inr:
  "bind_result r k = Inr v \<longleftrightarrow> (\<exists>x. r = Inr x \<and> k x = Inr v)"
  by (cases r) (simp_all add: bind_result_def)

lemma fallback_related_returns:
  "None \<notin> set all_queries \<Longrightarrow> \<exists>r. fallback_related q all_queries related = Inr r"
  by (induction q all_queries related rule: fallback_related.induct) auto

lemma find_related_queries_returns:
  "None \<notin> set all_queries \<Longrightarrow> \<exists>r. find_related_queries rt q all_queries = Inr r"
  using fallback_related_returns [of all_queries q "[]"]
  by (auto simp: find_related_queries_def split: option.splits)

lemma competitor_loop_returns:
  assumes "list_all (\<lambda>c. query c \<noteq> None) df"
  shows "\<exists>gaps. competitor_loop rt df cdl qs = Inr gaps"
proof (induction qs)
  case Nil
  then show ?case by simp
next
  case (Cons q qs)
  from assms have "None \<notin> set (unique (map query df))"
    by (auto simp: list_all_iff)
  then obtain r where "find_related_queries rt q (unique (map query df)) = Inr r"
    using find_related_queries_returns by blast
  with Cons show ?case by (auto simp: Let_def bind_result_def)
qed

lemma competitor_loop_Inr:
  "competitor_loop rt df cdl qs = Inr gaps \<Longrightarrow>
   gaps = concat (map (\<lambda>q.
     if length (rows_eq query q df) < 3 then []
     else if competitor_share_of df cdl q \<ge> 6 / 10
       then [competitor_dominated_gap df q (competitor_share_of df cdl q)]
       else []) qs)"
proof (induction qs arbitrary: gaps)
  case Nil
  then show ?case by simp
next
  case (Cons q qs)
  show ?case
  proof (cases "\<not> length (rows_eq query q df) < 3 \<and> competitor_share_of df cdl q \<ge> 6 / 10")
    case True
    with Cons.prems obtain rest where rest: "competitor_loop rt df cdl qs = Inr rest"
        and gaps: "gaps = competitor_dominated_gap df q (competitor_share_of df cdl q) # rest"
      by (auto simp: Let_def bind_result_Inr)
    from Cons.IH [OF rest] gaps True show ?thesis by simp
  next
    case False
    with Cons.prems have "competitor_loop rt df cdl qs = Inr gaps"
      by (auto simp: Let_def split: if_splits)
    from Cons.IH [OF this] False show ?thesis by auto
  qed
qed

lemma find_competitor_dominated_gaps_returns:
  assumes "competitor_domains = [] \<or> list_all (\<lambda>c. query c \<noteq> None) df"
  shows "\<exists>gaps. find_competitor_dominated_gaps rt df competitor_domains = Inr gaps"
proof (cases "competitor_domains = []")
  case True
  then show ?thesis by (simp add: find_competitor_dominated_gaps_def)
next
  case False
  with assms have "list_all (\<lambda>c. query c \<noteq> None) df" by simp
  from competitor_loop_returns [OF this] show ?thesis
    by (simp add: find_competitor_dominated_gaps_def)
qed

lemma find_competitor_dominated_gaps_type:
  assumes "find_competitor_dominated_gaps rt df cd = Inr gaps" and "g \<in> set gaps"
  shows "gap_type g = ''competitor_dominated''"
proof (cases "cd = [] \<or> \<not> has_col source_domain df \<or> \<not> has_col query df")
  case True
  with assms show ?thesis by (auto simp: find_competitor_dominated_gaps_def)
next
  case False
  with assms(1) have "competitor_loop rt df (map py_lower cd) (unique (col_values query df)) = Inr gaps"
    by (auto simp: find_competitor_dominated_gaps_def)
  from competitor_loop_Inr [OF this] assms(2) show ?thesis
    by (auto simp: competitor_dominated_gap_def split: if_splits)
qed

lemma identify_content_gaps_Inr:
  assumes "identify_content_gaps rt citations tq cd = Inr gaps"
    and "citations \<noteq> []" and "tq \<noteq> []"
  obtains cg where "find_competitor_dominated_gaps rt citations cd = Inr cg"
    and "gaps = sort_by_opportunity (map score_gap
           (find_no_citation_gaps citations tq @ find_weak_citation_gaps citations @ cg
            @ find_topic_cluster_gaps rt citations tq
            @ find_question_variation_gaps rt citations tq))"
  using assms
  by (auto simp: identify_content_gaps_def Let_def bind_result_Inr score_and_prioritize_gaps_eq)

lemma identify_content_gaps_returns:
  assumes "competitor_domains = [] \<or> list_all (\<lambda>c. query c \<noteq> None) citations"
  shows "\<exists>gaps. identify_content_gaps rt citations tracked_queries competitor_domains = Inr gaps"
  using find_competitor_dominated_gaps_returns [OF assms, of rt]
  by (auto simp: identify_content_gaps_def Let_def bind_result_def)

lemma few_citations_gap_found:
  assumes "q \<in> set tracked_queries" and "length (rows_eq query q df) = 2"
  shows "few_citations_gap df q \<in> set (find_no_citation_gaps df tracked_queries)"
proof -
  from assms(2) have "rows_eq query q df \<noteq> []" by auto
  then have "has_col query df" by (rule has_col_rows_eq)
  with assms show ?thesis by (auto simp: find_no_citation_gaps_def Let_def)
qed

lemma low_prominence_gap_found:
  assumes "rows_eq query q df = [c1, c2]"
    and "prominence_score c1 = Some p1" and "prominence_score c2 = Some p2"
    and "m = (p1 + p2) / 2" and "m < 1 / 2"
  shows "low_prominence_gap df q m \<in> set (find_weak_citation_gaps df)"
proof -
  have "c1 \<in> set (rows_eq query q df)" using assms(1) by simp
  then have c1: "c1 \<in> set df" "query c1 = Some q" by (simp_all add: set_rows_eq)
  then have hq: "has_col query df" by (auto simp: has_col_iff)
  from c1 assms(2) have hp: "has_col prominence_score df" by (auto simp: has_col_iff)
  from c1 have qin: "q \<in> set (sort (remdups (col_values query df)))"
    by (auto simp: set_col_values)
  have sc: "col_values prominence_score (rows_eq query q df) = [p1, p2]"
    using assms(1-3) by (simp add: col_values_def)
  have mn: "mean [p1, p2] = Some m" using assms(4) by (simp add: mean_def)
  have "low_prominence_gap df q m \<in> set
      (let scores = col_values prominence_score (rows_eq query q df) in
        case mean scores of
          None \<Rightarrow> []
        | Some m \<Rightarrow> if m < 5 / 10 \<and> length scores \<ge> 2 then [low_prominence_gap df q m] else [])"
    unfolding Let_def sc mn using assms(5) by simp
  with qin show ?thesis
    unfolding find_weak_citation_gaps_def using hq hp
    by (simp only: if_False simp_thms set_concat set_map) blast
qed

text \<open>
  C10. A tracked query with exactly two citations, both carrying a prominence score that
  is not negative and of mean below 0.5, gets two different \<open>weak_citations\<close> gaps in every
  list that \<open>identify_content_gaps\<close> returns: one from \<open>find_no_citation_gaps\<close> (count at
  most 2) and one from \<open>find_weak_citation_gaps\<close> (mean below 0.5, count at least 2).
  Nothing removes either. The call returns whenever no competitor domains are given or
  every citation has a query.
\<close>
theorem two_weak_citation_gaps_for_one_query:
  assumes "q \<in> set tracked_queries"
    and "rows_eq query q citations = [c1, c2]"
    and "prominence_score c1 = Some p1" and "prominence_score c2 = Some p2"
    and "0 \<le> p1" and "0 \<le> p2" and "(p1 + p2) / 2 < 1 / 2"
  shows "(\<forall>gaps. identify_content_gaps rt citations tracked_queries competitor_domains = Inr gaps
        \<longrightarrow> (\<exists>g1 g2. g1 \<in> set gaps \<and> g2 \<in> set gaps \<and> g1 \<noteq> g2
              \<and> g1 = score_gap (few_citations_gap citations q)
              \<and> g2 = score_gap (low_prominence_gap citations q ((p1 + p2) / 2))
              \<and> query_text g1 = q \<and> query_text g2 = q
              \<and> gap_type g1 = ''weak_citations'' \<and> gap_type g2 = ''weak_citations''))
     \<and> (competitor_domains = [] \<or> list_all (\<lambda>c. query c \<noteq> None) citations
        \<longrightarrow> (\<exists>gaps. identify_content_gaps rt citations tracked_queries competitor_domains
                      = Inr gaps))"
proof (intro conjI allI impI)
  fix gaps
  assume ret: "identify_content_gaps rt citations tracked_queries competitor_domains = Inr gaps"
  define m where "m = (p1 + p2) / 2"
  let ?g1 = "score_gap (few_citations_gap citations q)"
  let ?g2 = "score_gap (low_prominence_gap citations q m)"
  from assms(2) have ne: "citations \<noteq> []" by (auto simp: rows_eq_def)
  from assms(1) have nt: "tracked_queries \<noteq> []" by auto
  from ret ne nt obtain cg where gaps: "gaps = sort_by_opportunity (map score_gap
           (find_no_citation_gaps citations tracked_queries @ find_weak_citation_gaps citations
            @ cg @ find_topic_cluster_gaps rt citations tracked_queries
            @ find_question_variation_gaps rt citations tracked_queries))"
    by (rule identify_content_gaps_Inr)
  from assms(2) have "length (rows_eq query q citations) = 2" by simp
  with assms(1) have "few_citations_gap citations q \<in> set (find_no_citation_gaps citations tracked_queries)"
    by (rule few_citations_gap_found)
  then have m1: "?g1 \<in> set gaps" unfolding gaps by simp
  have "low_prominence_gap citations q m \<in> set (find_weak_citation_gaps citations)"
    using assms(2,3,4) m_def assms(7)[folded m_def] by (rule low_prominence_gap_found)
  then have m2: "?g2 \<in> set gaps" unfolding gaps by simp
  have "0 \<le> m" using assms(5,6) by (simp add: m_def)
  then have "difficulty_score ?g2 \<ge> 4 / 10" by (simp add: low_prominence_gap_def)
  moreover have "difficulty_score ?g1 = 3 / 10" by (simp add: few_citations_gap_def)
  ultimately have "difficulty_score ?g1 \<noteq> difficulty_score ?g2" by linarith
  then have d: "?g1 \<noteq> ?g2" by metis
  have "query_text ?g1 = q" "query_text ?g2 = q" "gap_type ?g1 = ''weak_citations''"
    "gap_type ?g2 = ''weak_citations''"
    by (simp_all add: few_citations_gap_def low_prominence_gap_def)
  with m1 m2 d show "\<exists>g1 g2. g1 \<in> set gaps \<and> g2 \<in> set gaps \<and> g1 \<noteq> g2
              \<and> g1 = score_gap (few_citations_gap citations q)
              \<and> g2 = score_gap (low_prominence_gap citations q ((p1 + p2) / 2))
              \<and> query_text g1 = q \<and> query_text g2 = q
              \<and> gap_type g1 = ''weak_citations'' \<and> gap_type g2 = ''weak_citations''"
    unfolding m_def by blast
next
  assume "competitor_domains = [] \<or> list_all (\<lambda>c. query c \<noteq> None) citations"
  then show "\<exists>gaps. identify_content_gaps rt citations tracked_queries competitor_domains = Inr gaps"
    by (rule identify_content_gaps_returns)
qed

theorem two_weak_citation_gaps_for_one_query_witness:
  "\<exists>gaps g1 g2.
      identify_content_gaps plain_runtime
        [sample_citation ''crm'' ''a.com'' (1 / 5) 1, sample_citation ''crm'' ''b.com'' (2 / 5) 2]
        [''crm''] [] = Inr gaps
    \<and> g1 \<in> set gaps \<and> g2 \<in> set gaps
    \<and> g1 \<noteq> g2
    \<and> query_text g1 = ''crm'' \<and> query_text g2 = ''crm''
    \<and> gap_type g1 = ''weak_citations'' \<and> gap_type g2 = ''weak_citations''"
proof -
  let ?cs = "[sample_citation ''crm'' ''a.com'' (1 / 5) 1, sample_citation ''crm'' ''b.com'' (2 / 5) 2]"
  have h1: "''crm'' \<in> set [''crm'']" by simp
  have h2: "rows_eq query ''crm'' ?cs =
      [sample_citation ''crm'' ''a.com'' (1 / 5) 1, sample_citation ''crm'' ''b.com'' (2 / 5) 2]"
    by (simp add: rows_eq_def sample_citation_def)
  have h3: "prominence_score (sample_citation ''crm'' ''a.com'' (1 / 5) 1) = Some (1 / 5)"
    by (simp add: sample_citation_def)
  have h4: "prominence_score (sample_citation ''crm'' ''b.com'' (2 / 5) 2) = Some (2 / 5)"
    by (simp add: sample_citation_def)
  have h5: "(0::rat) \<le> 1 / 5" and h6: "(0::rat) \<le> 2 / 5" and h7: "((1 / 5 + 2 / 5) / 2 :: rat) < 1 / 2"
    by simp_all
  from two_weak_citation_gaps_for_one_query [OF h1 h2 h3 h4 h5 h6 h7, of plain_runtime "[]"]
  show ?thesis by blast
qed

lemma find_weak_citation_gaps_type:
  "g \<in> set (find_weak_citation_gaps df) \<Longrightarrow> gap_type g = ''weak_citations''"
  by (auto simp: find_weak_citation_gaps_def Let_def low_prominence_gap_def
      split: if_splits option.splits)

lemma cluster_gaps_type:
  "g \<in> set (cluster_gaps df tq cl i) \<Longrightarrow> gap_type g = ''topic_cluster_gap''"
  by (auto simp: cluster_gaps_def Let_def topic_cluster_gap_def split: if_splits)

lemma find_topic_cluster_gaps_type:
  "g \<in> set (find_topic_cluster_gaps rt df tq) \<Longrightarrow> gap_type g = ''topic_cluster_gap''"
  by (auto simp: find_topic_cluster_gaps_def Let_def split: if_splits option.splits
      dest: cluster_gaps_type)

lemma topic_gaps_type:
  "g \<in> set (topic_gaps rt df e) \<Longrightarrow> gap_type g = ''question_variation''"
  by (auto simp: topic_gaps_def Let_def question_variation_gap_def
      split: prod.splits list.splits if_splits)

lemma find_question_variation_gaps_type:
  "g \<in> set (find_question_variation_gaps rt df tq) \<Longrightarrow> gap_type g = ''question_variation''"
  by (auto simp: find_question_variation_gaps_def dest: topic_gaps_type)

lemma find_no_citation_gaps_uncited:
  assumes "has_col query df" and "\<forall>q\<in>set tq. rows_eq query q df = []"
  shows "find_no_citation_gaps df tq = map no_citation_gap tq"
  using assms(2) unfolding find_no_citation_gaps_def using assms(1)
  by (induction tq) (simp_all add: Let_def)

lemma filter_none: "(\<And>x. x \<in> set xs \<Longrightarrow> \<not> P x) \<Longrightarrow> filter P xs = []"
  by (simp add: filter_empty_conv)

lemma score_gap_no_citation_gap:
  "priority (score_gap (no_citation_gap q)) = ''high''
   \<and> opportunity_score (score_gap (no_citation_gap q)) \<ge> 8 / 10"
  by (simp add: score_gap_def adjust_priority_def boost_commercial_def boost_high_value_def
      no_citation_gap_def priority_of_score_def)

lemma no_citation_filter_identify:
  assumes "has_col query citations" and "\<forall>q\<in>set tq. rows_eq query q citations = []"
    and "identify_content_gaps rt citations tq cd = Inr gaps"
  shows "filter (\<lambda>g. gap_type g = ''no_citations'') gaps
       = sort_by_opportunity (map (\<lambda>q. score_gap (no_citation_gap q)) tq)"
proof (cases "tq = []")
  case True
  with assms(3) show ?thesis by (simp add: identify_content_gaps_def sort_by_opportunity_def)
next
  case False
  from assms(1) have ne: "citations \<noteq> []" by (auto simp: has_col_iff)
  from assms(3) ne False obtain cg where cg: "find_competitor_dominated_gaps rt citations cd = Inr cg"
    and gaps: "gaps = sort_by_opportunity (map score_gap
           (find_no_citation_gaps citations tq @ find_weak_citation_gaps citations @ cg
            @ find_topic_cluster_gaps rt citations tq
            @ find_question_variation_gaps rt citations tq))"
    by (rule identify_content_gaps_Inr)
  let ?P = "\<lambda>g. gap_type g = ''no_citations''"
  have a: "filter ?P (map score_gap (find_no_citation_gaps citations tq))
      = map (\<lambda>q. score_gap (no_citation_gap q)) tq"
    unfolding find_no_citation_gaps_uncited [OF assms(1,2)]
    by (simp add: filter_map comp_def no_citation_gap_def)
  have b: "filter ?P (map score_gap (find_weak_citation_gaps citations)) = []"
    by (rule filter_none) (auto dest: find_weak_citation_gaps_type)
  have c: "filter ?P (map score_gap cg) = []"
    by (rule filter_none) (auto dest: find_competitor_dominated_gaps_type [OF cg])
  have d: "filter ?P (map score_gap (find_topic_cluster_gaps rt citations tq)) = []"
    by (rule filter_none) (auto dest: find_topic_cluster_gaps_type)
  have e: "filter ?P (map score_gap (find_question_variation_gaps rt citations tq)) = []"
    by (rule filter_none) (auto dest: find_question_variation_gaps_type)
  show ?thesis
    unfolding gaps by (simp add: sort_by_opportunity_def filter_sort a b c d e)
qed

text \<open>
  C1, as amended. When the citation list is not empty, some citation has a query and no
  citation carries a tracked query, \<open>find_no_citation_gaps\<close> returns exactly one
  \<open>no_citations\<close> gap per tracked query, in order, each with opportunity score 0.8 and
  priority high; in every list that \<open>identify_content_gaps\<close> returns, the \<open>no_citations\<close>
  gaps are one per tracked query, each of priority high and final score at least 0.8; and
  the call returns whenever every citation has a query or no competitor domains are given.
  For an empty citation list \<open>identify_content_gaps\<close> returns the empty list.
\<close>
theorem no_citation_gaps_for_uncited_queries:
  assumes "has_col query citations" and "\<forall>q\<in>set tracked_queries. rows_eq query q citations = []"
  shows "map query_text (find_no_citation_gaps citations tracked_queries) = tracked_queries
    \<and> (\<forall>g\<in>set (find_no_citation_gaps citations tracked_queries).
          gap_type g = ''no_citations'' \<and> opportunity_score g = 8 / 10 \<and> priority g = ''high'')
    \<and> (\<forall>gaps. identify_content_gaps rt citations tracked_queries competitor_domains = Inr gaps
          \<longrightarrow> mset (map query_text (filter (\<lambda>g. gap_type g = ''no_citations'') gaps))
                = mset tracked_queries
            \<and> (\<forall>g\<in>set (filter (\<lambda>g. gap_type g = ''no_citations'') gaps).
                  priority g = ''high'' \<and> opportunity_score g \<ge> 8 / 10))
    \<and> (competitor_domains = [] \<or> list_all (\<lambda>c. query c \<noteq> None) citations
          \<longrightarrow> (\<exists>gaps. identify_content_gaps rt citations tracked_queries competitor_domains
                        = Inr gaps))
    \<and> identify_content_gaps rt [] tracked_queries competitor_domains = Inr []"
proof (intro conjI allI impI)
  note eq = find_no_citation_gaps_uncited [OF assms]
  show "map query_text (find_no_citation_gaps citations tracked_queries) = tracked_queries"
    unfolding eq by (simp add: comp_def no_citation_gap_def)
  show "\<forall>g\<in>set (find_no_citation_gaps citations tracked_queries).
          gap_type g = ''no_citations'' \<and> opportunity_score g = 8 / 10 \<and> priority g = ''high''"
    unfolding eq by (auto simp: no_citation_gap_def)
  show "identify_content_gaps rt [] tracked_queries competitor_domains = Inr []"
    by (simp add: identify_content_gaps_def)
next
  fix gaps
  assume ret: "identify_content_gaps rt citations tracked_queries competitor_domains = Inr gaps"
  note fl = no_citation_filter_identify [OF assms ret]
  have "mset (map query_text (sort_by_opportunity (map (\<lambda>q. score_gap (no_citation_gap q)) tracked_queries)))
      = image_mset query_text (mset (map (\<lambda>q. score_gap (no_citation_gap q)) tracked_queries))"
    by simp
  also have "\<dots> = mset tracked_queries"
    by (simp add: comp_def no_citation_gap_def multiset.map_comp)
  finally show "mset (map query_text (filter (\<lambda>g. gap_type g = ''no_citations'') gaps))
        = mset tracked_queries"
    unfolding fl .
  show "\<forall>g\<in>set (filter (\<lambda>g. gap_type g = ''no_citations'') gaps).
          priority g = ''high'' \<and> opportunity_score g \<ge> 8 / 10"
    unfolding fl using score_gap_no_citation_gap by auto
next
  assume "competitor_domains = [] \<or> list_all (\<lambda>c. query c \<noteq> None) citations"
  then show "\<exists>gaps. identify_content_gaps rt citations tracked_queries competitor_domains = Inr gaps"
    by (rule identify_content_gaps_returns)
qed

theorem no_citation_gaps_for_uncited_queries_witness:
  "has_col query [sample_citation ''erp'' ''a.com'' (1 / 5) 1]
   \<and> rows_eq query ''crm'' [sample_citation ''erp'' ''a.com'' (1 / 5) 1] = []
   \<and> map query_text (find_no_citation_gaps [sample_citation ''erp'' ''a.com'' (1 / 5) 1] [''crm''])
       = [''crm'']
   \<and> (\<exists>gaps. identify_content_gaps plain_runtime [sample_citation ''erp'' ''a.com'' (1 / 5) 1]
             [''crm''] [''a.com''] = Inr gaps
        \<and> mset (map query_text (filter (\<lambda>g. gap_type g = ''no_citations'') gaps))
            = mset [''crm''])"
proof -
  let ?cs = "[sample_citation ''erp'' ''a.com'' (1 / 5) 1]"
  have h1: "has_col query ?cs"
    by (simp add: has_col_def sample_citation_def)
  have h0: "rows_eq query ''crm'' ?cs = []"
    by (simp add: rows_eq_def sample_citation_def)
  then have h2: "\<forall>q\<in>set [''crm'']. rows_eq query q ?cs = []"
    by simp
  have h3: "[''a.com''] = [] \<or> list_all (\<lambda>c. query c \<noteq> None) ?cs"
    by (simp add: sample_citation_def)
  from no_citation_gaps_for_uncited_queries [OF h1 h2, of plain_runtime "[''a.com'']"] h1 h0 h3
  show ?thesis by blast
qed

text \<open>
  C1 as stated fails: with an empty citation list and one tracked query the result is
  empty, not one \<open>no_citations\<close> gap.
\<close>
theorem empty_citations_give_no_gap:
  "identify_content_gaps plain_runtime [] [''crm''] [] = Inr []"
  by (simp add: identify_content_gaps_def)

text \<open>
  C3. The final opportunity score can exceed 1: two citations of prominence 0 for the
  tracked query "crm software" give a low-prominence gap of score 0.6 + 0.5 = 1.1; the
  query matches no boost word, so the \<open>min 1\<close> of the scoring pass is never applied.
\<close>
theorem low_prominence_gap_score_exceeds_one:
  "map_sum (\<lambda>e. e) (map (\<lambda>g. (gap_type g, opportunity_score g, priority g)))
     (identify_content_gaps plain_runtime
        [sample_citation ''crm software'' ''a.com'' 0 1,
         sample_citation ''crm software'' ''b.com'' 0 2]
        [''crm software''] [])
   = Inr [(''weak_citations'', 11 / 10, ''high''),
      (''weak_citations'', 7 / 10, ''medium''),
      (''question_variation'', 33 / 50, ''medium''),
      (''question_variation'', 33 / 50, ''medium''),
      (''question_variation'', 14 / 25, ''medium'')]"
  by code_simp

text \<open>
  The uncaught \<^verbatim>\<open>AttributeError\<close> of the competitor finder: three citations of one query
  from a competitor and one citation without a query.
\<close>
lemma competitor_finder_raises_on_missing_query:
  "identify_content_gaps plain_runtime
     [sample_citation ''other'' ''a.com'' (1 / 2) 1, sample_citation ''other'' ''a.com'' (1 / 2) 2,
      sample_citation ''other'' ''a.com'' (1 / 2) 3,
      (sample_citation ''other'' ''b.com'' (1 / 2) 4)\<lparr>query := None\<rparr>]
     [''crm''] [''a.com'']
   = Inl (AttributeError ''float object has no attribute lower'')"
  by code_simp

lemma counted_in_col_values:
  "0 < length (filter (\<lambda>c. f c = Some v) df) \<Longrightarrow> v \<in> set (col_values f df)"
  by (auto simp: set_col_values filter_empty_conv)

lemma filter_concat_map_key:
  assumes "distinct xs" and "\<And>x g. g \<in> set (f x) \<Longrightarrow> key g = x"
  shows "filter (\<lambda>g. key g = q) (concat (map f xs)) = (if q \<in> set xs then f q else [])"
  using assms(1)
proof (induction xs)
  case Nil
  then show ?case by simp
next
  case (Cons x xs)
  have all: "filter (\<lambda>g. key g = q) (f q) = f q"
    using assms(2) by (simp add: filter_id_conv)
  have none: "x \<noteq> q \<Longrightarrow> filter (\<lambda>g. key g = q) (f x) = []"
    using assms(2) by (auto simp: filter_empty_conv)
  from Cons show ?case using all none by auto
qed

lemma competitor_dominated_for_query:
  assumes "find_competitor_dominated_gaps rt df competitor_domains = Inr gaps"
    and "competitor_domains \<noteq> []" "has_col source_domain df" "has_col query df"
  shows "filter (\<lambda>g. query_text g = q) gaps =
    (if q \<in> set (col_values query df) \<and> 3 \<le> length (rows_eq query q df)
        \<and> 6 / 10 \<le> competitor_share_of df (map py_lower competitor_domains) q
     then [competitor_dominated_gap df q (competitor_share_of df (map py_lower competitor_domains) q)]
     else [])"
proof -
  let ?f = "\<lambda>q. if length (rows_eq query q df) < 3 then []
     else if competitor_share_of df (map py_lower competitor_domains) q \<ge> 6 / 10
       then [competitor_dominated_gap df q
               (competitor_share_of df (map py_lower competitor_domains) q)]
       else []"
  from assms have "competitor_loop rt df (map py_lower competitor_domains)
      (unique (col_values query df)) = Inr gaps"
    by (simp add: find_competitor_dominated_gaps_def)
  then have eq: "gaps = concat (map ?f (unique (col_values query df)))"
    by (rule competitor_loop_Inr)
  have "filter (\<lambda>g. query_text g = q) (concat (map ?f (unique (col_values query df))))
      = (if q \<in> set (unique (col_values query df)) then ?f q else [])"
    by (rule filter_concat_map_key)
       (auto simp: competitor_dominated_gap_def split: if_splits)
  then show ?thesis unfolding eq by auto
qed

lemma share_zero_no_col:
  "\<not> has_col source_domain df \<Longrightarrow> competitor_share_of df cdl q = 0"
  by (auto simp: competitor_share_of_def Let_def has_col_def list_ex_iff rows_eq_def
      filter_empty_conv split: option.splits)

lemma share_zero_no_competitors: "competitor_share_of df [] q = 0"
  by (simp add: competitor_share_of_def Let_def split: option.splits)

text \<open>
  C5, as amended. In every list that \<open>find_competitor_dominated_gaps\<close> returns, a query with
  at least 3 citations whose competitor share is at least 0.6 has exactly one gap, of type
  \<open>competitor_dominated\<close>, with opportunity score 0.5 - share * 0.2, difficulty score
  0.6 + share * 0.3 (so at least 0.6), priority low if share > 0.8 and medium otherwise,
  potential impact high if share < 0.8 and medium otherwise, and estimated effort high; a
  query with fewer than 3 citations has no gap. The call returns whenever every citation has
  a query. The share is the fraction of the query's citations whose source domain is in the
  lower-cased competitor list.
\<close>
theorem competitor_dominated_gap_fields:
  "(\<forall>gaps. find_competitor_dominated_gaps rt df competitor_domains = Inr gaps \<longrightarrow>
      (3 \<le> length (rows_eq query q df)
        \<and> 6 / 10 \<le> competitor_share_of df (map py_lower competitor_domains) q \<longrightarrow>
       (\<exists>g. filter (\<lambda>g. query_text g = q) gaps = [g]
        \<and> gap_type g = ''competitor_dominated''
        \<and> opportunity_score g
            = 5 / 10 - competitor_share_of df (map py_lower competitor_domains) q * (2 / 10)
        \<and> difficulty_score g
            = 6 / 10 + competitor_share_of df (map py_lower competitor_domains) q * (3 / 10)
        \<and> difficulty_score g \<ge> 6 / 10
        \<and> priority g = (if competitor_share_of df (map py_lower competitor_domains) q > 8 / 10
                         then ''low'' else ''medium'')
        \<and> potential_impact g = (if competitor_share_of df (map py_lower competitor_domains) q < 8 / 10
                         then ''high'' else ''medium'')
        \<and> estimated_effort g = ''high''))
      \<and> (length (rows_eq query q df) < 3 \<longrightarrow> filter (\<lambda>g. query_text g = q) gaps = []))
   \<and> (list_all (\<lambda>c. query c \<noteq> None) df \<longrightarrow>
        (\<exists>gaps. find_competitor_dominated_gaps rt df competitor_domains = Inr gaps))"
proof (intro conjI allI impI)
  fix gaps
  assume ret: "find_competitor_dominated_gaps rt df competitor_domains = Inr gaps"
  assume a: "3 \<le> length (rows_eq query q df)
      \<and> 6 / 10 \<le> competitor_share_of df (map py_lower competitor_domains) q"
  let ?s = "competitor_share_of df (map py_lower competitor_domains) q"
  from a have "rows_eq query q df \<noteq> []" by auto
  then have hq: "has_col query df" by (rule has_col_rows_eq)
  from a have pos: "0 < ?s" by linarith
  then have hd: "has_col source_domain df" using share_zero_no_col [of df _ q] by force
  from pos have hc: "competitor_domains \<noteq> []" using share_zero_no_competitors [of df q] by force
  from a have "0 < length (filter (\<lambda>c. query c = Some q) df)" by (auto simp: rows_eq_def)
  then have qin: "q \<in> set (col_values query df)" by (rule counted_in_col_values)
  have "filter (\<lambda>g. query_text g = q) gaps = [competitor_dominated_gap df q ?s]"
    using a qin by (simp add: competitor_dominated_for_query [OF ret hc hd hq])
  moreover have "difficulty_score (competitor_dominated_gap df q ?s) \<ge> 6 / 10"
    using pos by (simp add: competitor_dominated_gap_def)
  ultimately show "\<exists>g. filter (\<lambda>g. query_text g = q) gaps = [g]
        \<and> gap_type g = ''competitor_dominated''
        \<and> opportunity_score g = 5 / 10 - ?s * (2 / 10)
        \<and> difficulty_score g = 6 / 10 + ?s * (3 / 10)
        \<and> difficulty_score g \<ge> 6 / 10
        \<and> priority g = (if ?s > 8 / 10 then ''low'' else ''medium'')
        \<and> potential_impact g = (if ?s < 8 / 10 then ''high'' else ''medium'')
        \<and> estimated_effort g = ''high''"
    by (simp add: competitor_dominated_gap_def)
next
  fix gaps
  assume ret: "find_competitor_dominated_gaps rt df competitor_domains = Inr gaps"
  assume a: "length (rows_eq query q df) < 3"
  show "filter (\<lambda>g. query_text g = q) gaps = []"
  proof (cases "competitor_domains \<noteq> [] \<and> has_col source_domain df \<and> has_col query df")
    case True
    then show ?thesis using a by (simp add: competitor_dominated_for_query [OF ret])
  next
    case False
    with ret show ?thesis by (auto simp: find_competitor_dominated_gaps_def)
  qed
next
  assume "list_all (\<lambda>c. query c \<noteq> None) df"
  then show "\<exists>gaps. find_competitor_dominated_gaps rt df competitor_domains = Inr gaps"
    by (intro find_competitor_dominated_gaps_returns) simp
qed

theorem competitor_dominated_gap_fields_witness:
  "3 \<le> length (rows_eq query ''q''
       [sample_citation ''q'' ''a.com'' (1 / 2) 1, sample_citation ''q'' ''a.com'' (1 / 2) 2,
        sample_citation ''q'' ''a.com'' (1 / 2) 3])
   \<and> competitor_share_of
       [sample_citation ''q'' ''a.com'' (1 / 2) 1, sample_citation ''q'' ''a.com'' (1 / 2) 2,
        sample_citation ''q'' ''a.com'' (1 / 2) 3] (map py_lower [''A.com'']) ''q'' = 1
   \<and> (\<exists>gaps g. find_competitor_dominated_gaps plain_runtime
          [sample_citation ''q'' ''a.com'' (1 / 2) 1, sample_citation ''q'' ''a.com'' (1 / 2) 2,
           sample_citation ''q'' ''a.com'' (1 / 2) 3] [''A.com''] = Inr gaps
        \<and> filter (\<lambda>g. query_text g = ''q'') gaps = [g]
        \<and> gap_type g = ''competitor_dominated''
        \<and> difficulty_score g = 9 / 10
        \<and> priority g = ''low''
        \<and> potential_impact g = ''medium''
        \<and> estimated_effort g = ''high'')"
proof -
  let ?cs = "[sample_citation ''q'' ''a.com'' (1 / 2) 1, sample_citation ''q'' ''a.com'' (1 / 2) 2,
        sample_citation ''q'' ''a.com'' (1 / 2) 3]"
  have h1: "3 \<le> length (rows_eq query ''q'' ?cs)"
    by (simp add: rows_eq_def sample_citation_def)
  have h2: "competitor_share_of ?cs (map py_lower [''A.com'']) ''q'' = 1"
    by code_simp
  have h3: "list_all (\<lambda>c. query c \<noteq> None) ?cs" by (simp add: sample_citation_def)
  let ?s = "competitor_share_of ?cs (map py_lower [''A.com'']) ''q''"
  have pre: "3 \<le> length (rows_eq query ''q'' ?cs) \<and> 6 / 10 \<le> ?s"
    using h1 unfolding h2 by simp
  note inst = competitor_dominated_gap_fields [of plain_runtime ?cs "[''A.com'']" "''q''"]
  from inst h3 obtain gaps where ret: "find_competitor_dominated_gaps plain_runtime ?cs [''A.com'']
      = Inr gaps"
    by blast
  from inst ret pre
  obtain g where g: "filter (\<lambda>g. query_text g = ''q'') gaps = [g]"
      "gap_type g = ''competitor_dominated''"
      "difficulty_score g = 6 / 10 + ?s * (3 / 10)"
      "priority g = (if ?s > 8 / 10 then ''low'' else ''medium'')"
      "potential_impact g = (if ?s < 8 / 10 then ''high'' else ''medium'')"
      "estimated_effort g = ''high''"
    by blast
  from g(3-5) have "difficulty_score g = 9 / 10" "priority g = ''low''"
      "potential_impact g = ''medium''"
    unfolding h2 by simp_all
  with g(1,2,6) h1 h2 ret show ?thesis by blast
qed

text \<open>
  C5 as stated fails at a share of exactly 0.8 (four of five citations from a competitor):
  the potential impact is medium, where the claim says high.
\<close>
theorem potential_impact_medium_at_share_four_fifths:
  "competitor_share_of
      [sample_citation ''q'' ''a.com'' (1 / 2) 1, sample_citation ''q'' ''a.com'' (1 / 2) 2,
       sample_citation ''q'' ''a.com'' (1 / 2) 3, sample_citation ''q'' ''a.com'' (1 / 2) 4,
       sample_citation ''q'' ''b.com'' (1 / 2) 5] (map py_lower [''a.com'']) ''q'' = 8 / 10
  \<and> map_sum (\<lambda>e. e) (map potential_impact) (find_competitor_dominated_gaps plain_runtime
      [sample_citation ''q'' ''a.com'' (1 / 2) 1, sample_citation ''q'' ''a.com'' (1 / 2) 2,
       sample_citation ''q'' ''a.com'' (1 / 2) 3, sample_citation ''q'' ''a.com'' (1 / 2) 4,
       sample_citation ''q'' ''b.com'' (1 / 2) 5] [''a.com'']) = Inr [''medium'']"
  by code_simp

subsection \<open>Pattern recognition engine\<close>

text \<open>
  C2. An exception of a sub-scan escapes \<open>analyze_citation_patterns\<close>: for three citations
  that carry only the key \<open>source_domain\<close>, the domain sub-scan finds a domain with three
  citations and raises \<open>KeyError\<close> on the column \<open>engine\<close>; no other sub-scan runs.
\<close>
theorem missing_engine_column_escapes:
  "analyze_citation_patterns plain_runtime
     [domain_only_citation ''a.com'', domain_only_citation ''a.com'',
      domain_only_citation ''a.com'']
   = Inl (KeyError ''engine'')"
  by code_simp













lemma domain_and_type_eq:
  "domain_and_type c = Some (d, t) \<longleftrightarrow> source_domain c = Some d \<and> citation_type c = Some t"
  by (auto simp: domain_and_type_def split: option.splits)

lemma top_positions_have_position:
  "c \<in> set (top_positions_of df) \<Longrightarrow> \<exists>p. position c = Some p \<and> p \<le> 3"
  by (auto simp: top_positions_of_def split: option.splits)

lemma length_col_values_all:
  "\<forall>c\<in>set rows. f c \<noteq> None \<Longrightarrow> length (col_values f rows) = length rows"
  by (induction rows) (auto simp: col_values_def)

lemma has_col_subset: "has_col f rows \<Longrightarrow> set rows \<subseteq> set df \<Longrightarrow> has_col f df"
  by (auto simp: has_col_iff)

lemma set_top_positions_subset: "set (top_positions_of df) \<subseteq> set df"
  by (auto simp: top_positions_of_def)

lemma group_in_consistent_top:
  assumes "2 \<le> length (filter (\<lambda>c. source_domain c = Some d \<and> citation_type c = Some t)
      (top_positions_of df))"
  shows "(avg (map of_int (col_values position
            (filter (\<lambda>c. source_domain c = Some d \<and> citation_type c = Some t)
               (top_positions_of df)))),
          length (filter (\<lambda>c. source_domain c = Some d \<and> citation_type c = Some t)
               (top_positions_of df)))
         \<in> set (consistent_top_of (top_positions_of df))"
proof -
  let ?tp = "top_positions_of df"
  let ?G = "filter (\<lambda>c. source_domain c = Some d \<and> citation_type c = Some t) ?tp"
  have G: "rows_eq domain_and_type (d, t) ?tp = ?G"
    by (simp add: rows_eq_def domain_and_type_eq)
  have "\<forall>c\<in>set ?G. position c \<noteq> None"
    using top_positions_have_position [of _ df] by auto
  then have len: "length (col_values position ?G) = length ?G"
    by (rule length_col_values_all)
  from assms have "?G \<noteq> []" by auto
  then have "0 < length (filter (\<lambda>c. domain_and_type c = Some (d, t)) ?tp)"
    by (simp add: domain_and_type_eq)
  then have key: "(d, t) \<in> set (unique (col_values domain_and_type ?tp))"
    using counted_in_col_values [of domain_and_type "(d, t)" ?tp] by simp
  have "((d, t), ?G) \<in> set (groupby domain_and_type ?tp)"
    unfolding groupby_def using key G by (auto simp: image_iff)
  then have "(avg (map of_int (col_values position ?G)), length (col_values position ?G))
      \<in> set (map (\<lambda>(k, rows).
          let ps = col_values position rows in (avg (map of_int ps), length ps))
          (groupby domain_and_type ?tp))"
    by (force simp: Let_def)
  with assms show ?thesis
    unfolding consistent_top_of_def len by simp
qed

text \<open>
  C6, as amended. When at least 3 records have position at most 3, the frame has the columns
  \<open>engine\<close> and \<open>prominence_score\<close>, and some (domain, citation type) group has at least 2
  of the records with position at most 3, the position sub-scan emits exactly one pattern,
  over all such groups, with strength 1 - (mean of the groups' mean positions) / 10; the
  group named is one of them.
\<close>
theorem position_consistency_pattern:
  assumes "3 \<le> length (top_positions_of df)"
    and "has_col engine df" and "has_col prominence_score df"
    and "2 \<le> length (filter (\<lambda>c. source_domain c = Some d \<and> citation_type c = Some t)
      (top_positions_of df))"
  shows "analyze_position_patterns df =
      Inr [\<lparr>pattern_type = ''position_consistency'',
            frequency = sum_list (map snd (consistent_top_of (top_positions_of df))),
            strength = 1 - avg (map fst (consistent_top_of (top_positions_of df))) / 10\<rparr>]
    \<and> (avg (map of_int (col_values position
            (filter (\<lambda>c. source_domain c = Some d \<and> citation_type c = Some t)
               (top_positions_of df)))),
        length (filter (\<lambda>c. source_domain c = Some d \<and> citation_type c = Some t)
               (top_positions_of df)))
       \<in> set (consistent_top_of (top_positions_of df))"
proof -
  let ?tp = "top_positions_of df"
  let ?G = "filter (\<lambda>c. source_domain c = Some d \<and> citation_type c = Some t) ?tp"
  note mem = group_in_consistent_top [OF assms(4)]
  then have ne: "consistent_top_of ?tp \<noteq> []" by auto
  from assms(4) obtain c where c: "c \<in> set ?G" by (cases ?G) auto
  then have cdf: "c \<in> set df" using set_top_positions_subset by auto
  from c have "source_domain c \<noteq> None" "citation_type c \<noteq> None" by auto
  with cdf have h1: "has_col source_domain df" and h2: "has_col citation_type df"
    by (auto simp: has_col_iff)
  from c top_positions_have_position [of c df] cdf have h3: "has_col position df"
    by (auto simp: has_col_iff)
  show ?thesis
    using assms(1-3) h1 h2 h3 ne mem
    by (simp add: analyze_position_patterns_def Let_def require_col_def min_pattern_frequency_def)
qed

theorem position_consistency_pattern_witness:
  "analyze_position_patterns
     [sample_citation ''q'' ''x.com'' (9 / 10) 1, sample_citation ''q'' ''x.com'' (9 / 10) 2,
      sample_citation ''q'' ''x.com'' (9 / 10) 1]
   = Inr [\<lparr>pattern_type = ''position_consistency'', frequency = 3, strength = 13 / 15\<rparr>]"
proof -
  let ?cs = "[sample_citation ''q'' ''x.com'' (9 / 10) 1, sample_citation ''q'' ''x.com'' (9 / 10) 2,
      sample_citation ''q'' ''x.com'' (9 / 10) 1]"
  have tp: "top_positions_of ?cs = ?cs"
    by (simp add: top_positions_of_def sample_citation_def)
  have h1: "3 \<le> length (top_positions_of ?cs)" unfolding tp by simp
  have h2: "has_col engine ?cs" by code_simp
  have h3: "has_col prominence_score ?cs" by code_simp
  have h4: "2 \<le> length (filter (\<lambda>c. source_domain c = Some ''x.com''
       \<and> citation_type c = Some ''organic'') (top_positions_of ?cs))"
    unfolding tp by (simp add: sample_citation_def)
  have ct: "consistent_top_of ?cs = [(4 / 3, 3)]" by code_simp
  from position_consistency_pattern [OF h1 h2 h3 h4] show ?thesis
    unfolding tp ct by (simp add: avg_def)
qed

text \<open>
  C6 as stated fails: two records of one (domain, citation type) group in the top three
  positions, and no third record in the top three, give no pattern.
\<close>
theorem two_top_records_give_no_position_pattern:
  "analyze_position_patterns
     [sample_citation ''q'' ''x.com'' (9 / 10) 1, sample_citation ''q'' ''x.com'' (9 / 10) 2]
   = Inr []"
  by code_simp

subsection \<open>Strength of the patterns\<close>

lemma sum_list_upper: "\<forall>x\<in>set xs. x \<le> (b::rat) \<Longrightarrow> sum_list xs \<le> of_nat (length xs) * b"
  by (induction xs) (auto simp: algebra_simps)

lemma sum_list_lower: "\<forall>x\<in>set xs. (a::rat) \<le> x \<Longrightarrow> of_nat (length xs) * a \<le> sum_list xs"
  by (induction xs) (auto simp: algebra_simps)

lemma avg_bounds:
  assumes "xs \<noteq> []" and "\<forall>x\<in>set xs. a \<le> x \<and> x \<le> b"
  shows "a \<le> avg xs \<and> avg xs \<le> b"
proof -
  from assms(1) have n: "(0::rat) < of_nat (length xs)" by simp
  from assms(2) have "of_nat (length xs) * a \<le> sum_list xs" 
    by (intro sum_list_lower) simp
  moreover from assms(2) have "sum_list xs \<le> of_nat (length xs) * b"
    by (intro sum_list_upper) simp
  ultimately show ?thesis using n
    by (simp add: avg_def pos_le_divide_eq pos_divide_le_eq mult.commute)
qed

lemma mean_bounds:
  "mean xs = Some m \<Longrightarrow> \<forall>x\<in>set xs. a \<le> x \<and> x \<le> b \<Longrightarrow> a \<le> m \<and> m \<le> b"
  using avg_bounds [of xs a b] by (auto simp: mean_def avg_def split: if_splits)

lemma prominence_in_range:
  assumes "list_all input_invariant df" and "set rows \<subseteq> set df"
  shows "\<forall>x\<in>set (col_values prominence_score rows). 0 \<le> x \<and> x \<le> 1"
proof
  fix x assume "x \<in> set (col_values prominence_score rows)"
  then obtain c where "c \<in> set rows" "prominence_score c = Some x"
    by (auto simp: set_col_values)
  with assms show "0 \<le> x \<and> x \<le> 1"
    by (auto simp: list_all_iff input_invariant_def split: option.splits)
qed

lemma set_rows_eq_subset: "set (rows_eq f v df) \<subseteq> set df"
  by (auto simp: rows_eq_def)

lemma groupby_rows_subset: "(k, rows) \<in> set (groupby key df) \<Longrightarrow> set rows \<subseteq> set df"
  by (auto simp: groupby_def rows_eq_def)

lemma domain_frequency_scan_strength:
  "domain_frequency_scan df = Inr ps \<Longrightarrow> p \<in> set ps \<Longrightarrow> 0 \<le> strength p \<and> strength p \<le> 1"
  by (auto simp: domain_frequency_scan_def Let_def require_col_def split: if_splits)

lemma domain_prominence_scan_strength:
  assumes "domain_prominence_scan df = Inr ps" and "p \<in> set ps" and "list_all input_invariant df"
  shows "0 \<le> strength p \<and> strength p \<le> 1"
proof -
  define dp where "dp = map (\<lambda>(d, rows).
              let scores = col_values prominence_score rows in (mean scores, length scores))
              (groupby source_domain df)"
  define hp where "hp = filter (\<lambda>(m, n).
              (case m of None \<Rightarrow> False | Some v \<Rightarrow> v \<ge> 7 / 10) \<and> n \<ge> 2) dp"
  have in_range: "\<forall>x\<in>set (List.map_filter fst hp). 0 \<le> x \<and> x \<le> 1"
  proof
    fix x assume "x \<in> set (List.map_filter fst hp)"
    then obtain n where "(Some x, n) \<in> set hp" by (auto simp: set_map_filter_conv)
    then have "(Some x, n) \<in> set dp" by (simp add: hp_def)
    then obtain d rows where "(d, rows) \<in> set (groupby source_domain df)"
        and "mean (col_values prominence_score rows) = Some x"
      by (auto simp: dp_def Let_def)
    with prominence_in_range [OF assms(3) groupby_rows_subset] show "0 \<le> x \<and> x \<le> 1"
      by (metis mean_bounds)
  qed
  from assms(1,2) have hp_ne: "hp \<noteq> []" and st: "strength p = avg (List.map_filter fst hp)"
    by (auto simp: domain_prominence_scan_def Let_def require_col_def dp_def hp_def
        split: if_splits)
  have "\<forall>e\<in>set hp. fst e \<noteq> None" by (auto simp: hp_def split: option.splits)
  then have "List.map_filter fst hp \<noteq> []" using hp_ne
    by (cases hp) (auto split: option.splits)
  from avg_bounds [OF this in_range] st show ?thesis by simp
qed


lemma round3_range:
  assumes "0 \<le> x" and "x \<le> 1"
  shows "0 \<le> round3 x \<and> round3 x \<le> 1"
proof -
  define y where "y = x * 1000"
  define f where "f = \<lfloor>y\<rfloor>"
  from assms have y: "0 \<le> y" "y \<le> 1000" by (simp_all add: y_def)
  then have f0: "0 \<le> f" by (simp add: f_def)
  from y have f1: "f \<le> 1000" unfolding f_def by (simp add: floor_le_iff)
  have top: "f = 1000 \<Longrightarrow> y - of_int f = 0"
  proof -
    assume "f = 1000"
    then have "1000 \<le> y" unfolding f_def using of_int_floor_le [of y] by simp
    with y(2) \<open>f = 1000\<close> show ?thesis by simp
  qed
  define k where "k = (if y - of_int f < 1 / 2 then f else if y - of_int f > 1 / 2 then f + 1
              else if even f then f else f + 1)"
  have "0 \<le> k" using f0 by (simp add: k_def)
  moreover have "k \<le> 1000" using f1 top by (cases "f = 1000") (auto simp: k_def)
  moreover have "round3 x = of_int k / 1000"
    by (simp add: round3_def Let_def y_def f_def k_def)
  ultimately show ?thesis by simp
qed

lemma content_type_strength:
  assumes "analyze_content_type_patterns df = Inr ps" and "p \<in> set ps"
    and "list_all input_invariant df"
  shows "0 \<le> strength p \<and> strength p \<le> 1"
proof -
  define ts where "ts = map (\<lambda>(t, rows).
               let scores = col_values prominence_score rows in
               (map_option round3 (mean scores), length scores)) (groupby citation_type df)"
  define hp where "hp = filter (\<lambda>(m, n).
               (case m of None \<Rightarrow> False | Some v \<Rightarrow> v \<ge> 6 / 10) \<and> n \<ge> 3) ts"
  have in_range: "\<forall>x\<in>set (List.map_filter fst hp). 0 \<le> x \<and> x \<le> 1"
  proof
    fix x assume "x \<in> set (List.map_filter fst hp)"
    then obtain n where "(Some x, n) \<in> set hp" by (auto simp: set_map_filter_conv)
    then have "(Some x, n) \<in> set ts" by (simp add: hp_def)
    then obtain d rows where g: "(d, rows) \<in> set (groupby citation_type df)"
        and e: "Some x = map_option round3 (mean (col_values prominence_score rows))"
      by (auto simp: ts_def Let_def)
    from e obtain m where "mean (col_values prominence_score rows) = Some m" and "x = round3 m"
      by (cases "mean (col_values prominence_score rows)") auto
    note g this
    with prominence_in_range [OF assms(3) groupby_rows_subset] show "0 \<le> x \<and> x \<le> 1"
      by (metis mean_bounds round3_range)
  qed
  from assms(1,2) have hp_ne: "hp \<noteq> []" and st: "strength p = avg (List.map_filter fst hp)"
    by (auto simp: analyze_content_type_patterns_def Let_def require_col_def ts_def hp_def
        split: if_splits)
  have "\<forall>e\<in>set hp. fst e \<noteq> None" by (auto simp: hp_def split: option.splits)
  then have "List.map_filter fst hp \<noteq> []" using hp_ne
    by (cases hp) (auto split: option.splits)
  from avg_bounds [OF this in_range] st show ?thesis by simp
qed

lemma top_positions_range:
  assumes "list_all input_invariant df" and "set rows \<subseteq> set (top_positions_of df)"
  shows "\<forall>x\<in>set (map of_int (col_values position rows)). (0::rat) \<le> x \<and> x \<le> 3"
proof
  fix x :: rat assume "x \<in> set (map of_int (col_values position rows))"
  then obtain c n where c: "c \<in> set rows" "position c = Some n" "x = of_int n"
    by (auto simp: set_col_values)
  with assms(2) have "c \<in> set df" "n \<le> 3"
    by (auto simp: top_positions_of_def)
  with assms(1) c show "0 \<le> x \<and> x \<le> 3"
    by (auto simp: list_all_iff input_invariant_def split: option.splits)
qed

lemma consistent_top_range:
  assumes "list_all input_invariant df"
  shows "\<forall>x\<in>set (map fst (consistent_top_of (top_positions_of df))). 0 \<le> x \<and> x \<le> 3"
proof
  fix x assume "x \<in> set (map fst (consistent_top_of (top_positions_of df)))"
  then obtain k rows where g: "(k, rows) \<in> set (groupby domain_and_type (top_positions_of df))"
      and x: "x = avg (map of_int (col_values position rows))"
      and n: "2 \<le> length (col_values position rows)"
    by (auto simp: consistent_top_of_def Let_def)
  from n have ne: "map rat_of_int (col_values position rows) \<noteq> []" by auto
  from avg_bounds [OF ne top_positions_range [OF assms groupby_rows_subset [OF g]]] x
  show "0 \<le> x \<and> x \<le> 3" by simp
qed

lemma position_strength:
  assumes "analyze_position_patterns df = Inr ps" and "p \<in> set ps"
    and "list_all input_invariant df"
  shows "0 \<le> strength p \<and> strength p \<le> 1"
proof -
  let ?ct = "consistent_top_of (top_positions_of df)"
  from assms(1,2) have ne: "?ct \<noteq> []" and st: "strength p = 1 - avg (map fst ?ct) / 10"
    by (auto simp: analyze_position_patterns_def Let_def require_col_def split: if_splits)
  from ne have "map fst ?ct \<noteq> []" by simp
  from avg_bounds [OF this consistent_top_range [OF assms(3)]]
  show ?thesis unfolding st by simp
qed

lemma temporal_spikes_strength:
  "temporal_spikes_scan df = Inr ps \<Longrightarrow> p \<in> set ps \<Longrightarrow> 0 \<le> strength p \<and> strength p \<le> 1"
  by (auto simp: temporal_spikes_scan_def Let_def require_col_def split: if_splits)

lemma avg_nonneg: "\<forall>x\<in>set xs. 0 \<le> x \<Longrightarrow> 0 \<le> avg xs"
  by (simp add: avg_def sum_list_nonneg)

lemma weekly_variation_strength:
  assumes "weekly_variation_scan df = Inr ps" and "p \<in> set ps"
  shows "0 \<le> strength p \<and> strength p \<le> 1"
proof -
  define w where "w = group_sizes (map day_of_week (col_values created_at df))"
  from assms have ne: "w \<noteq> []"
    and st: "strength p = min 1 ((of_nat (Max (set w)) - of_nat (Min (set w)))
                                        / avg (map of_nat w))"
    by (auto simp: weekly_variation_scan_def Let_def require_col_def w_def split: if_splits)
  from ne have "Min (set w) \<le> Max (set w)" by (intro Min.coboundedI Max_in) simp_all
  then have "(0::rat) \<le> of_nat (Max (set w)) - of_nat (Min (set w))" by simp
  moreover have "0 \<le> avg (map rat_of_nat w)" by (rule avg_nonneg) simp
  ultimately have "0 \<le> (of_nat (Max (set w)) - of_nat (Min (set w))) / avg (map rat_of_nat w)"
    by (rule divide_nonneg_nonneg)
  then show ?thesis unfolding st by simp
qed


lemma ratio_in_unit: "a \<le> b \<Longrightarrow> (0::rat) \<le> of_nat a / of_nat b \<and> (of_nat a :: rat) / of_nat b \<le> 1"
  by (cases "b = 0") (simp_all add: divide_le_eq_1)

lemma length_rows_eq_le: "length (rows_eq f v rows) \<le> length rows"
  by (simp add: rows_eq_def)

lemma max_count_le:
  assumes "value_counts f rows \<noteq> []"
  shows "Max (set (map snd (value_counts f rows))) \<le> length rows"
proof (rule Max.boundedI)
  show "finite (set (map snd (value_counts f rows)))" by simp
  show "set (map snd (value_counts f rows)) \<noteq> {}" using assms by simp
  fix a assume "a \<in> set (map snd (value_counts f rows))"
  then show "a \<le> length rows"
    by (auto simp: value_counts_def length_rows_eq_le)
qed

lemma engine_loop_strength:
  "engine_loop df es = Inr ps \<Longrightarrow> p \<in> set ps \<Longrightarrow> 0 \<le> strength p \<and> strength p \<le> 1"
proof (induction es arbitrary: ps)
  case Nil
  then show ?case by simp
next
  case (Cons e es)
  define engine_data where "engine_data = (case e of None \<Rightarrow> [] | Some v \<Rightarrow> rows_eq engine v df)"
  define type_prefs where "type_prefs = value_counts citation_type engine_data"
  define top where "top = Max (set (map snd type_prefs))"
  show ?case
  proof (cases "has_col citation_type df \<and> type_prefs \<noteq> []
      \<and> (of_nat top :: rat) / of_nat (length engine_data) > 6 / 10")
    case True
    with Cons.prems(1) obtain ps' where ps': "engine_loop df es = Inr ps'"
      and ps: "ps = \<lparr>pattern_type = ''engine_content_preference'', frequency = top,
                   strength = of_nat top / of_nat (length engine_data)\<rparr> # ps'"
      by (auto simp: Let_def bind_result_Inr engine_data_def type_prefs_def top_def)
    from True have "top \<le> length engine_data"
      unfolding top_def type_prefs_def by (intro max_count_le) simp
    then have "(0::rat) \<le> of_nat top / of_nat (length engine_data)
        \<and> (of_nat top :: rat) / of_nat (length engine_data) \<le> 1"
      by (rule ratio_in_unit)
    with Cons.IH [OF ps'] Cons.prems(2) ps show ?thesis by auto
  next
    case False
    with Cons.prems(1) have "engine_loop df es = Inr ps"
      by (auto simp: Let_def engine_data_def type_prefs_def top_def split: if_splits)
    from Cons.IH [OF this Cons.prems(2)] show ?thesis .
  qed
qed

lemma engine_strength:
  "analyze_engine_patterns df = Inr ps \<Longrightarrow> p \<in> set ps \<Longrightarrow> 0 \<le> strength p \<and> strength p \<le> 1"
  by (auto simp: analyze_engine_patterns_def require_col_def split: if_splits
      dest: engine_loop_strength)

lemma content_feature_strength:
  assumes "analyze_content_feature_patterns df = Inr ps" and "p \<in> set ps"
  shows "0 \<le> strength p \<and> strength p \<le> 1"
proof -
  define fc where "fc = map (\<lambda>t. (t, count_list (feature_tokens df) t)) (unique (feature_tokens df))"
  define ff where "ff = filter (\<lambda>(t, n). n \<ge> min_pattern_frequency) fc"
  from assms have st: "strength p = of_nat (length ff) / of_nat (max (length fc) 1)"
    by (auto simp: analyze_content_feature_patterns_def Let_def require_col_def fc_def ff_def
        split: if_splits)
  have "length ff \<le> max (length fc) 1" by (simp add: ff_def le_max_iff_disj)
  from ratio_in_unit [OF this] show ?thesis unfolding st .
qed

lemma cluster_loop_strength:
  "p \<in> set (cluster_loop df clusters ids) \<Longrightarrow> 0 \<le> strength p \<and> strength p \<le> 1"
proof (induction ids)
  case Nil
  then show ?case by simp
next
  case (Cons i ids)
  define cluster_data where "cluster_data = map fst (filter (\<lambda>(c, l). l = i) (zip df clusters))"
  have "length cluster_data \<le> length (zip df clusters)"
    unfolding cluster_data_def length_map by (rule length_filter_le)
  also have "\<dots> \<le> length df" by simp
  finally have "length cluster_data \<le> length df" .
  note r = ratio_in_unit [OF this]
  from Cons.prems have "p \<in> set (cluster_loop df clusters ids)
      \<or> strength p = of_nat (length cluster_data) / of_nat (length df)"
    by (auto simp: Let_def cluster_data_def split: if_splits)
  with Cons.IH r show ?case by auto
qed

lemma query_similarity_cases:
  "analyze_query_similarity_patterns rt df = []
   \<or> (\<exists>clusters ids. analyze_query_similarity_patterns rt df = cluster_loop df clusters ids)"
proof (cases "fit_predict rt (map (\<lambda>c. case query c of None \<Rightarrow> [] | Some q \<Rightarrow> q) df)
    (min 5 (length df div 3))")
  case None
  then show ?thesis
    unfolding analyze_query_similarity_patterns_def Let_def by simp
next
  case (Some clusters)
  then show ?thesis
    unfolding analyze_query_similarity_patterns_def Let_def by auto
qed

lemma query_similarity_strength:
  assumes "p \<in> set (analyze_query_similarity_patterns rt df)"
  shows "0 \<le> strength p \<and> strength p \<le> 1"
  using query_similarity_cases [of rt df] assms cluster_loop_strength by force

lemma domain_strength:
  assumes "analyze_domain_patterns df = Inr ps" and "p \<in> set ps"
    and "list_all input_invariant df"
  shows "0 \<le> strength p \<and> strength p \<le> 1"
proof (cases "has_col source_domain df")
  case False
  with assms(1,2) show ?thesis by (simp add: analyze_domain_patterns_def)
next
  case True
  with assms(1) obtain p1 p2 where "domain_frequency_scan df = Inr p1"
      "domain_prominence_scan df = Inr p2" "ps = p1 @ p2"
    by (auto simp: analyze_domain_patterns_def bind_result_Inr)
  with assms(2,3) show ?thesis
    using domain_frequency_scan_strength domain_prominence_scan_strength by auto
qed

lemma temporal_strength:
  assumes "analyze_temporal_patterns df = Inr ps" and "p \<in> set ps"
  shows "0 \<le> strength p \<and> strength p \<le> 1"
proof (cases "has_col created_at df")
  case False
  with assms(1,2) show ?thesis by (simp add: analyze_temporal_patterns_def)
next
  case True
  with assms(1) obtain p1 p2 where "temporal_spikes_scan df = Inr p1"
      "weekly_variation_scan df = Inr p2" "ps = p1 @ p2"
    by (auto simp: analyze_temporal_patterns_def bind_result_Inr)
  with assms(2) show ?thesis
    using temporal_spikes_strength weekly_variation_strength by auto
qed

lemma analyze_citation_patterns_strength:
  assumes "analyze_citation_patterns rt citations = Inr ps" and "p \<in> set ps"
    and "list_all input_invariant citations"
  shows "0 \<le> strength p \<and> strength p \<le> 1"
proof (cases "citations = []")
  case True
  with assms(1,2) show ?thesis by (simp add: analyze_citation_patterns_def)
next
  case False
  with assms(1) obtain p1 p2 p3 p4 p5 p6 where
      "analyze_domain_patterns citations = Inr p1"
      "analyze_content_type_patterns citations = Inr p2"
      "analyze_position_patterns citations = Inr p3"
      "analyze_temporal_patterns citations = Inr p4"
      "analyze_engine_patterns citations = Inr p5"
      "analyze_content_feature_patterns citations = Inr p6"
      "ps = p1 @ p2 @ p3 @ p4 @ p5 @ p6 @ analyze_query_similarity_patterns rt citations"
    by (auto simp: analyze_citation_patterns_def Let_def bind_result_Inr)
  with assms(2,3) show ?thesis
    using domain_strength content_type_strength position_strength temporal_strength
      engine_strength content_feature_strength query_similarity_strength
    by (auto simp del: min_less_iff_conj)
qed


lemma complete_columns:
  assumes "df \<noteq> []" and "list_all complete df"
  shows "has_col engine df" "has_col query df" "has_col position df"
    "has_col citation_type df" "has_col source_domain df" "has_col prominence_score df"
    "has_col created_at df"
proof -
  from assms obtain c where "c \<in> set df" "complete c"
    by (cases df) (auto simp: list_all_iff)
  then show "has_col engine df" "has_col query df" "has_col position df"
    "has_col citation_type df" "has_col source_domain df" "has_col prominence_score df"
    "has_col created_at df"
    by (auto simp: has_col_iff complete_def)
qed

lemma engine_loop_returns:
  assumes "list_all complete df" and "set es \<subseteq> set (map engine df)"
  shows "\<exists>ps. engine_loop df es = Inr ps"
  using assms(2)
proof (induction es)
  case Nil
  then show ?case by simp
next
  case (Cons e es)
  then obtain ps where ps: "engine_loop df es = Inr ps" by auto
  from Cons.prems obtain c where c: "c \<in> set df" "engine c = e" by auto
  with assms(1) obtain v t where v: "e = Some v" and t: "citation_type c = Some t"
    by (auto simp: list_all_iff complete_def)
  from c v have "c \<in> set (rows_eq engine v df)" by (simp add: set_rows_eq)
  with t have "t \<in> set (col_values citation_type (rows_eq engine v df))"
    by (auto simp: set_col_values)
  then have "value_counts citation_type (rows_eq engine v df) \<noteq> []"
    by (auto simp: value_counts_def unique_def)
  with ps v show ?case by (simp add: Let_def bind_result_def)
qed

lemma analyze_citation_patterns_returns:
  assumes "list_all complete citations"
  shows "\<exists>ps. analyze_citation_patterns rt citations = Inr ps"
proof (cases "citations = []")
  case True
  then show ?thesis by (simp add: analyze_citation_patterns_def)
next
  case False
  note cols = complete_columns [OF False assms]
  have a1: "\<exists>ps. analyze_domain_patterns citations = Inr ps"
    using cols by (simp add: analyze_domain_patterns_def domain_frequency_scan_def
        domain_prominence_scan_def require_col_def bind_result_def Let_def)
  have a2: "\<exists>ps. analyze_content_type_patterns citations = Inr ps"
    using cols by (simp add: analyze_content_type_patterns_def require_col_def Let_def)
  have a3: "\<exists>ps. analyze_position_patterns citations = Inr ps"
    using cols by (simp add: analyze_position_patterns_def require_col_def Let_def)
  have a4: "\<exists>ps. analyze_temporal_patterns citations = Inr ps"
    using cols by (simp add: analyze_temporal_patterns_def temporal_spikes_scan_def
        weekly_variation_scan_def require_col_def bind_result_def Let_def)
  have a5: "\<exists>ps. analyze_engine_patterns citations = Inr ps"
    using cols engine_loop_returns [OF assms, of "unique (map engine citations)"]
    by (simp add: analyze_engine_patterns_def require_col_def)
  have a6: "\<exists>ps. analyze_content_feature_patterns citations = Inr ps"
    using cols by (simp add: analyze_content_feature_patterns_def require_col_def Let_def)
  from a1 a2 a3 a4 a5 a6 show ?thesis
    using False by (auto simp: analyze_citation_patterns_def Let_def bind_result_def)
qed

text \<open>
  C4. For every citation list whose records satisfy the input invariant (prominence score
  in [0, 1], position not negative), every pattern that \<open>analyze_citation_patterns\<close>
  returns has strength in [0, 1]; and on a list of complete citation records it does
  return a list of patterns, whatever the clustering library answers.
\<close>
theorem pattern_strength_in_unit_interval:
  assumes "list_all input_invariant citations"
  shows "(\<forall>ps. analyze_citation_patterns rt citations = Inr ps \<longrightarrow>
            (\<forall>p\<in>set ps. 0 \<le> strength p \<and> strength p \<le> 1))
    \<and> (list_all complete citations \<longrightarrow>
            (\<exists>ps. analyze_citation_patterns rt citations = Inr ps))"
  using analyze_citation_patterns_strength [OF _ _ assms] analyze_citation_patterns_returns
  by blast

theorem pattern_strength_in_unit_interval_witness:
  "list_all input_invariant
     [sample_citation ''q'' ''x.com'' (9 / 10) 1, sample_citation ''q'' ''x.com'' (9 / 10) 2,
      sample_citation ''q'' ''x.com'' (9 / 10) 1, sample_citation ''r'' ''y.com'' (4 / 5) 5]
   \<and> list_all complete
     [sample_citation ''q'' ''x.com'' (9 / 10) 1, sample_citation ''q'' ''x.com'' (9 / 10) 2,
      sample_citation ''q'' ''x.com'' (9 / 10) 1, sample_citation ''r'' ''y.com'' (4 / 5) 5]
   \<and> (\<exists>ps. analyze_citation_patterns plain_runtime
       [sample_citation ''q'' ''x.com'' (9 / 10) 1, sample_citation ''q'' ''x.com'' (9 / 10) 2,
        sample_citation ''q'' ''x.com'' (9 / 10) 1, sample_citation ''r'' ''y.com'' (4 / 5) 5] = Inr ps
      \<and> ps \<noteq> [] \<and> list_all (\<lambda>p. 0 \<le> strength p \<and> strength p \<le> 1) ps)"
proof -
  let ?cs = "[sample_citation ''q'' ''x.com'' (9 / 10) 1, sample_citation ''q'' ''x.com'' (9 / 10) 2,
      sample_citation ''q'' ''x.com'' (9 / 10) 1, sample_citation ''r'' ''y.com'' (4 / 5) 5]"
  have h1: "list_all input_invariant ?cs" by code_simp
  have h2: "list_all complete ?cs" by code_simp
  have ev: "analyze_citation_patterns plain_runtime ?cs =
      Inr [\<lparr>pattern_type = ''domain_frequency'', frequency = 1, strength = 1 / 10\<rparr>,
           \<lparr>pattern_type = ''domain_prominence'', frequency = 1, strength = 9 / 10\<rparr>,
           \<lparr>pattern_type = ''content_type_performance'', frequency = 4, strength = 7 / 8\<rparr>,
           \<lparr>pattern_type = ''position_consistency'', frequency = 3, strength = 13 / 15\<rparr>,
           \<lparr>pattern_type = ''engine_content_preference'', frequency = 4, strength = 1\<rparr>]"
    by code_simp
  from pattern_strength_in_unit_interval [OF h1, of plain_runtime] ev
  have "list_all (\<lambda>p. 0 \<le> strength p \<and> strength p \<le> 1)
      [\<lparr>pattern_type = ''domain_frequency'', frequency = 1, strength = 1 / 10\<rparr>,
           \<lparr>pattern_type = ''domain_prominence'', frequency = 1, strength = 9 / 10\<rparr>,
           \<lparr>pattern_type = ''content_type_performance'', frequency = 4, strength = 7 / 8\<rparr>,
           \<lparr>pattern_type = ''position_consistency'', frequency = 3, strength = 13 / 15\<rparr>,
           \<lparr>pattern_type = ''engine_content_preference'', frequency = 4, strength = 1\<rparr>]"
    unfolding list_all_iff by blast
  with h1 h2 ev show ?thesis by simp
qed

end
